theory Spec2Isabelle
  imports Complex_Main "HOL-Library.Word"
begin

section \<open>The RPC tester of seastar: \<^verbatim>\<open>apps/rpc_tester/rpc_tester.cc\<close>\<close>

text \<open>
  The development follows the source file from top to bottom: the serializer of the
  RPC protocol (numbers and strings on a byte stream), the configuration records, the
  RPC job with its call loops, the per-shard context with its start, run, stop and
  report, and the \<^verbatim>\<open>main\<close> function.

  Everything the program asks of its environment is an input of the model: the byte
  order of the machine, the readings of the steady clock, the order in which the
  reactor resumes the call loops, and the outcome of every remote call.
\<close>

subsection \<open>Byte streams\<close>

type_synonym byte = "8 word"
type_synonym buffer = "byte list"

text \<open>
  Errors are values. \<open>Out_of_range\<close> is the failure of a read past the end of the
  input stream, \<open>Runtime_error\<close> is \<^verbatim>\<open>std::runtime_error\<close> with its message,
  \<open>Rpc_error\<close> is a remote call whose future resolved with an exception.
\<close>

datatype error = Out_of_range | Runtime_error string | Rpc_error

text \<open>
  The object representation of an integer depends on the machine: the least
  significant byte first (x86, ARM) or last. The serializer copies object
  representations, so the byte order is a parameter of every function below.
\<close>

datatype endian = Little | Big

fun le_bytes :: "nat \<Rightarrow> nat \<Rightarrow> byte list" where
  "le_bytes 0 v = []"
| "le_bytes (Suc n) v = of_nat (v mod 256) # le_bytes n (v div 256)"

fun le_value :: "byte list \<Rightarrow> nat" where
  "le_value [] = 0"
| "le_value (b # bs) = unat b + 256 * le_value bs"

text \<open>\<^verbatim>\<open>sizeof(T)\<close> and the \<^verbatim>\<open>sizeof(T)\<close> bytes at \<^verbatim>\<open>&v\<close>.\<close>

definition sizeof :: "'a::len word \<Rightarrow> nat" where
  "sizeof v = LENGTH('a) div 8"

definition object_bytes :: "endian \<Rightarrow> 'a::len word \<Rightarrow> byte list" where
  "object_bytes e v =
     (case e of Little \<Rightarrow> le_bytes (sizeof v) (unat v)
              | Big \<Rightarrow> rev (le_bytes (sizeof v) (unat v)))"

definition object_of_bytes :: "endian \<Rightarrow> byte list \<Rightarrow> 'a::len word" where
  "object_of_bytes e bs =
     of_nat (le_value (case e of Little \<Rightarrow> bs | Big \<Rightarrow> rev bs))"

text \<open>
  \<^verbatim>\<open>out.write(p, n)\<close> appends \<open>n\<close> bytes to the output. \<^verbatim>\<open>in.read(p, n)\<close> takes
  the next \<open>n\<close> bytes of the input and moves the cursor past them.

  Modelled from the spec: the stream types \<^verbatim>\<open>Output\<close> and \<^verbatim>\<open>Input\<close> are template
  parameters, supplied by the RPC layer. The spec (4.1) says of a truncated stream
  that the decode fails and never returns a partial value; here a read of more bytes
  than the input holds is the error \<open>Out_of_range\<close>.
\<close>

definition out_write :: "buffer \<Rightarrow> byte list \<Rightarrow> nat \<Rightarrow> buffer" where
  "out_write out p n = out @ take n p"

definition in_read :: "buffer \<Rightarrow> nat \<Rightarrow> error + (byte list \<times> buffer)" where
  "in_read inp n =
     (if n \<le> length inp then Inr (take n inp, drop n inp) else Inl Out_of_range)"

subsection \<open>The serializer: arithmetic types\<close>

definition write_arithmetic_type :: "endian \<Rightarrow> buffer \<Rightarrow> 'a::len word \<Rightarrow> buffer" where
  "write_arithmetic_type e out v = out_write out (object_bytes e v) (sizeof v)"

definition read_arithmetic_type :: "endian \<Rightarrow> buffer \<Rightarrow> error + ('a::len word \<times> buffer)" where
  "read_arithmetic_type e inp =
     (case in_read inp (LENGTH('a) div 8) of
        Inl err \<Rightarrow> Inl err
      | Inr (bs, inp') \<Rightarrow> Inr (object_of_bytes e bs, inp'))"

text \<open>
  The values the five \<^verbatim>\<open>write\<close> overloads take, and the type tags \<^verbatim>\<open>rpc::type<T>\<close>
  that select a \<^verbatim>\<open>read\<close> overload. A word carries the bits; the constructor says
  how C++ reads them. A \<^verbatim>\<open>double\<close> is its 64 bits: the serializer copies them and
  never computes with them.
\<close>

datatype arith =
    Int32 "32 word"
  | UInt32 "32 word"
  | Int64 "64 word"
  | UInt64 "64 word"
  | Double "64 word"

datatype rpc_type = T_int32 | T_uint32 | T_int64 | T_uint64 | T_double

fun rpc_type_of :: "arith \<Rightarrow> rpc_type" where
  "rpc_type_of (Int32 _) = T_int32"
| "rpc_type_of (UInt32 _) = T_uint32"
| "rpc_type_of (Int64 _) = T_int64"
| "rpc_type_of (UInt64 _) = T_uint64"
| "rpc_type_of (Double _) = T_double"

fun serializer_write :: "endian \<Rightarrow> buffer \<Rightarrow> arith \<Rightarrow> buffer" where
  "serializer_write e out (Int32 v) = write_arithmetic_type e out v"
| "serializer_write e out (UInt32 v) = write_arithmetic_type e out v"
| "serializer_write e out (Int64 v) = write_arithmetic_type e out v"
| "serializer_write e out (UInt64 v) = write_arithmetic_type e out v"
| "serializer_write e out (Double v) = write_arithmetic_type e out v"

text \<open>
  The overload for \<^verbatim>\<open>rpc::type<int64_t>\<close> is declared to return \<^verbatim>\<open>uint64_t\<close>: it
  reads an \<^verbatim>\<open>int64_t\<close> and converts it, which keeps the 64 bits and changes how
  they are read. The model returns \<open>UInt64\<close> there.
\<close>

fun serializer_read :: "endian \<Rightarrow> buffer \<Rightarrow> rpc_type \<Rightarrow> error + (arith \<times> buffer)" where
  "serializer_read e inp T_int32 = map_sum id (map_prod Int32 id) (read_arithmetic_type e inp)"
| "serializer_read e inp T_uint32 = map_sum id (map_prod UInt32 id) (read_arithmetic_type e inp)"
| "serializer_read e inp T_uint64 = map_sum id (map_prod UInt64 id) (read_arithmetic_type e inp)"
| "serializer_read e inp T_int64 = map_sum id (map_prod UInt64 id) (read_arithmetic_type e inp)"
| "serializer_read e inp T_double = map_sum id (map_prod Double id) (read_arithmetic_type e inp)"

text \<open>The bits of a value, as the bytes of its object representation.\<close>

fun bits :: "endian \<Rightarrow> arith \<Rightarrow> byte list" where
  "bits e (Int32 v) = object_bytes e v"
| "bits e (UInt32 v) = object_bytes e v"
| "bits e (Int64 v) = object_bytes e v"
| "bits e (UInt64 v) = object_bytes e v"
| "bits e (Double v) = object_bytes e v"

subsection \<open>The serializer: strings\<close>

text \<open>
  Modelled from the spec: the string type \<^verbatim>\<open>sstring\<close> is declared outside the
  source file. The spec (4.1) gives a string a 4-byte unsigned length, and seastar's
  \<^verbatim>\<open>sstring\<close> keeps its size in a \<^verbatim>\<open>uint32_t\<close>; a string is a sequence of fewer
  than \<open>2 ^ 32\<close> bytes.
\<close>

typedef sstring = "{bs :: byte list. length bs < 2 ^ 32}"
  by (rule exI [of _ "[]"]) simp

definition c_str :: "sstring \<Rightarrow> byte list" where
  "c_str v = Rep_sstring v"

definition size_sstring :: "sstring \<Rightarrow> nat" where
  "size_sstring v = length (Rep_sstring v)"

text \<open>
  \<^verbatim>\<open>uninitialized_string(size)\<close> followed by \<^verbatim>\<open>in.read(ret.data(), size)\<close>: a
  string of \<open>size\<close> bytes, filled from the input.
\<close>

definition write_sstring :: "endian \<Rightarrow> buffer \<Rightarrow> sstring \<Rightarrow> buffer" where
  "write_sstring e out v =
     out_write (write_arithmetic_type e out (of_nat (size_sstring v) :: 32 word))
       (c_str v) (size_sstring v)"

definition read_sstring :: "endian \<Rightarrow> buffer \<Rightarrow> error + (sstring \<times> buffer)" where
  "read_sstring e inp =
     (case (read_arithmetic_type e inp :: error + (32 word \<times> buffer)) of
        Inl err \<Rightarrow> Inl err
      | Inr (sz, inp') \<Rightarrow>
          (case in_read inp' (unat sz) of
             Inl err \<Rightarrow> Inl err
           | Inr (bs, inp'') \<Rightarrow> Inr (Abs_sstring bs, inp'')))"

subsection \<open>Configuration\<close>

record client_config =
  nodelay :: bool

record server_config =
  nodelay :: bool

text \<open>
  \<^verbatim>\<open>parallelism\<close> and \<^verbatim>\<open>shares\<close> are \<^verbatim>\<open>unsigned\<close>; \<^verbatim>\<open>duration\<close> is a number of
  seconds; \<^verbatim>\<open>sg\<close> is the handle of the job's scheduling group.
\<close>

record job_config =
  name :: string
  type :: string
  verb :: string
  parallelism :: "32 word"
  shares :: "32 word"
  duration :: int
  sg :: nat

record config =
  client :: client_config
  server :: server_config
  jobs :: "job_config list"

datatype rpc_verb = HELLO | BYE | ECHO

text \<open>
  The target probabilities of the quantile estimator, \<^verbatim>\<open>{0.5, 0.95, 0.99, 0.999}\<close>.
\<close>

definition quantiles :: "rat list" where
  "quantiles = [5 / 10, 95 / 100, 99 / 100, 999 / 1000]"

subsection \<open>The RPC job\<close>

text \<open>
  A \<^verbatim>\<open>steady_clock::time_point\<close> is a number of clock ticks, nanoseconds on the
  platforms seastar builds for. The clock never goes back.
\<close>

type_synonym time_point = int

definition seconds :: "int \<Rightarrow> int" where
  "seconds n = n * 1000000000"

text \<open>\<^verbatim>\<open>duration_cast<microseconds>\<close> of a number of ticks: division that truncates.\<close>

definition duration_cast_microseconds :: "int \<Rightarrow> int" where
  "duration_cast_microseconds d = sgn d * (\<bar>d\<bar> div 1000)"

text \<open>
  The members of \<^verbatim>\<open>job_rpc\<close> that change or decide anything: the configuration, the
  deadline \<^verbatim>\<open>_stop\<close>, the counter \<^verbatim>\<open>_total_messages\<close>, and the accumulator
  \<^verbatim>\<open>_latencies\<close>. The accumulator is Boost's; the model keeps the samples it was
  given, oldest first, and takes the statistics it computes from them as a parameter
  (see \<open>estimator\<close> below).
\<close>

record job_rpc =
  cfg :: job_config
  stop :: time_point
  total_messages :: "64 word"
  latencies :: "int list"

text \<open>
  The constructor reads the clock for the deadline in its initialiser list, then
  checks the verb. \<open>now\<close> is the reading of the clock.
\<close>

definition job_rpc_ctor :: "time_point \<Rightarrow> job_config \<Rightarrow> error + job_rpc" where
  "job_rpc_ctor now c =
     (if verb c = ''echo''
      then Inr \<lparr>cfg = c, stop = now + seconds (duration c), total_messages = 0, latencies = []\<rparr>
      else Inl (Runtime_error ''unknown verb''))"

definition make_job :: "time_point \<Rightarrow> job_config \<Rightarrow> error + job_rpc" where
  "make_job now c =
     (if type c = ''rpc'' then job_rpc_ctor now c
      else Inl (Runtime_error ''unknown job type''))"

subsection \<open>The call loops of \<^verbatim>\<open>job_rpc::run\<close>\<close>

text \<open>
  \<^verbatim>\<open>run\<close> starts one loop for each number in \<^verbatim>\<open>irange(0u, parallelism)\<close> with
  \<^verbatim>\<open>parallel_for_each\<close>, and each loop is \<^verbatim>\<open>do_until(stop_cond, action)\<close>.

  Modelled from the spec: \<^verbatim>\<open>do_until\<close> and \<^verbatim>\<open>parallel_for_each\<close> are combinators
  of seastar's core (\<^verbatim>\<open>seastar/core/loop.hh\<close>), outside the source file. The spec
  (4.3, 5, 7) has the deadline checked once for each call, at the boundaries of the
  iterations and never while a call is in flight; it has \<^verbatim>\<open>run\<close> complete only when
  every loop has ended; and it has a failed call end its loop and fail the run. Where
  the check stands in the iteration is the combinator's: \<^verbatim>\<open>do_until\<close> takes the stop
  condition as its first argument and evaluates it before every call of the action,
  the first one included. \<^verbatim>\<open>with_scheduling_group\<close> gives the loops their share of
  the processor; that decides when a loop is woken, which is the schedule's here.

  The loops run on one reactor thread. A loop runs until it waits for the reply of
  its call, so a loop is in one of four places:
  \<^item> \<open>Ready\<close>: at the head of \<^verbatim>\<open>do_until\<close>, about to evaluate the stop condition;
  \<^item> \<open>In_flight start\<close>: waiting for the reply of the call issued at clock reading
    \<open>start\<close>;
  \<^item> \<open>Finished\<close>: the stop condition held;
  \<^item> \<open>Faulted\<close>: the call failed, and the loop ended with its exception.
\<close>

datatype loop = Ready | In_flight time_point | Finished | Faulted

text \<open>
  What wakes a loop up, with the readings of the clock it then takes:
  \<^item> \<open>Resume t t'\<close>: the reactor runs a ready loop. The stop condition reads the
    clock (\<open>t\<close>); if the deadline has not passed, the action counts the message,
    reads the clock again (\<open>t'\<close>) and issues the call.
  \<^item> \<open>Reply t\<close>: the call returned. The continuation reads the clock (\<open>t\<close>) and
    gives the latency to the accumulator.
  \<^item> \<open>Failure\<close>: the future of the call resolved with an exception. The continuation
    is skipped.
\<close>

datatype wakeup = Resume time_point time_point | Reply time_point | Failure

text \<open>
  One wake-up of one loop. \<open>c\<close> is the last reading of the clock; a reading below an
  earlier one is not a behaviour of a steady clock, and neither is a wake-up that does
  not fit the place of the loop: both are \<open>None\<close>.
\<close>

fun iteration ::
  "time_point \<Rightarrow> job_rpc \<Rightarrow> loop \<Rightarrow> wakeup \<Rightarrow> (time_point \<times> job_rpc \<times> loop) option" where
  "iteration c j Ready (Resume t t') =
     (if t < c then None
      else if stop j < t then Some (t, j, Finished)
      else if t' < t then None
      else Some (t', j\<lparr>total_messages := total_messages j + 1\<rparr>, In_flight t'))"
| "iteration c j (In_flight start) (Reply t) =
     (if t < c then None
      else Some (t, j\<lparr>latencies := latencies j @ [duration_cast_microseconds (t - start)]\<rparr>,
                 Ready))"
| "iteration c j (In_flight start) Failure = Some (c, j, Faulted)"
| "iteration c j _ _ = None"

text \<open>
  A run in progress: the job, the places of its loops, and the last reading of the
  clock.
\<close>

record run_state =
  job :: job_rpc
  loops :: "loop list"
  clock :: time_point

type_synonym schedule = "(nat \<times> wakeup) list"

definition start_run :: "job_rpc \<Rightarrow> time_point \<Rightarrow> run_state" where
  "start_run j t0 =
     \<lparr>job = j, loops = replicate (unat (parallelism (cfg j))) Ready, clock = t0\<rparr>"

definition step :: "run_state \<Rightarrow> nat \<times> wakeup \<Rightarrow> run_state option" where
  "step s ev =
     (case ev of (i, w) \<Rightarrow>
        if i < length (loops s)
        then (case iteration (clock s) (job s) (loops s ! i) w of
                None \<Rightarrow> None
              | Some (c, j, l) \<Rightarrow> Some \<lparr>job = j, loops = (loops s)[i := l], clock = c\<rparr>)
        else None)"

fun exec :: "run_state \<Rightarrow> schedule \<Rightarrow> run_state option" where
  "exec s [] = Some s"
| "exec s (ev # evs) = (case step s ev of None \<Rightarrow> None | Some s' \<Rightarrow> exec s' evs)"

text \<open>
  The future of \<^verbatim>\<open>run\<close> resolves when no loop is left running; it holds an
  exception when a loop faulted.
\<close>

definition ended :: "loop \<Rightarrow> bool" where
  "ended l = (l = Finished \<or> l = Faulted)"

definition completed :: "run_state \<Rightarrow> bool" where
  "completed s = list_all ended (loops s)"

definition waiting :: "loop \<Rightarrow> bool" where
  "waiting l = (case l of In_flight _ \<Rightarrow> True | _ \<Rightarrow> False)"

definition in_flight :: "run_state \<Rightarrow> nat" where
  "in_flight s = length (filter waiting (loops s))"

definition faulted :: "run_state \<Rightarrow> nat" where
  "faulted s = length (filter (\<lambda>l. l = Faulted) (loops s))"

text \<open>
  The wake-ups of a schedule that issue a call: the stop condition read a clock not
  past the deadline \<open>d\<close>.
\<close>

fun issues :: "time_point \<Rightarrow> nat \<times> wakeup \<Rightarrow> bool" where
  "issues d (i, Resume t t') = (t \<le> d)"
| "issues d (i, Reply t) = False"
| "issues d (i, Failure) = False"

text \<open>
  Every loop of the job is first woken before the deadline has passed: the first
  wake-up of loop \<open>i\<close> in the schedule is a \<open>Resume\<close> whose stop condition reads a
  clock not past the deadline.
\<close>

definition started_in_time :: "job_rpc \<Rightarrow> schedule \<Rightarrow> bool" where
  "started_in_time j evs =
     list_all (\<lambda>i. case map_of evs i of Some (Resume t t') \<Rightarrow> t \<le> stop j | _ \<Rightarrow> False)
       [0..<unat (parallelism (cfg j))]"

text \<open>
  The calls a run accounts for: the samples taken, the calls in flight, and the calls
  that failed.
\<close>

definition accounted :: "run_state \<Rightarrow> nat" where
  "accounted s = length (latencies (job s)) + in_flight s + faulted s"

text \<open>
  Every call in flight was issued at a reading of the clock that is not after the
  last one.
\<close>

fun issued_by :: "time_point \<Rightarrow> loop \<Rightarrow> bool" where
  "issued_by c (In_flight start) = (start \<le> c)"
| "issued_by c _ = True"

definition issued_before_now :: "run_state \<Rightarrow> bool" where
  "issued_before_now s = list_all (issued_by (clock s)) (loops s)"

subsection \<open>The report\<close>

text \<open>
  What the program tells the YAML emitter, as the document it builds: unsigned
  numbers, maps with their keys in the order of emission, sequences, and a comment on
  a value.

  The statistics of the accumulator are values of type \<^verbatim>\<open>double\<close>: a rational
  number, or no number at all (NaN, an infinity). The cast \<^verbatim>\<open>(uint64_t)x\<close> drops
  the fraction of \<open>x\<close>; the language leaves the result open when what remains is not
  a value of \<^verbatim>\<open>uint64_t\<close>, and the document then holds \<open>Unspecified\<close>.
\<close>

datatype yaml =
    Number "64 word"
  | Unspecified
  | YMap "(string \<times> yaml) list"
  | YSeq "yaml list"
  | Comment string yaml

datatype double = Finite rat | Not_finite

definition truncated :: "rat \<Rightarrow> int" where
  "truncated x = (if 0 \<le> x then \<lfloor>x\<rfloor> else \<lceil>x\<rceil>)"

definition to_uint64 :: "double \<Rightarrow> yaml" where
  "to_uint64 d =
     (case d of
        Not_finite \<Rightarrow> Unspecified
      | Finite x \<Rightarrow>
          if 0 \<le> truncated x \<and> truncated x < 2 ^ 64 then Number (of_int (truncated x))
          else Unspecified)"

text \<open>
  The accumulator set is Boost's and \<^verbatim>\<open>fmt::format\<close> is the fmt library's; neither
  is code of this program. The statistics the accumulator computes from the samples
  it was given, and the text \<^verbatim>\<open>fmt::format("{}", q)\<close> of a probability, are
  parameters of the report.
\<close>

record estimator =
  est_mean :: "int list \<Rightarrow> double"
  est_quantile :: "int list \<Rightarrow> rat \<Rightarrow> double"
  est_max :: "int list \<Rightarrow> double"
  format :: "rat \<Rightarrow> string"

definition job_name :: "job_rpc \<Rightarrow> string" where
  "job_name j = name (cfg j)"

definition job_emit_result :: "estimator \<Rightarrow> job_rpc \<Rightarrow> (string \<times> yaml) list" where
  "job_emit_result est j =
     [(''messages'', Number (total_messages j)),
      (''latencies'', Comment ''usec'' (YMap
         ([(''average'', to_uint64 (est_mean est (latencies j)))]
          @ map (\<lambda>q. (''p'' @ format est q, to_uint64 (est_quantile est (latencies j) q)))
              quantiles
          @ [(''max'', to_uint64 (est_max est (latencies j)))])))]"

subsection \<open>The context\<close>

text \<open>
  An address with its port, and an endpoint of the RPC protocol (a listening server
  or a client connection) with the one option the program sets.
\<close>

type_synonym ipv4_addr = "string \<times> 16 word"

record endpoint =
  addr :: ipv4_addr
  tcp_nodelay :: bool

text \<open>
  The class \<^verbatim>\<open>context\<close>, one object per shard, with its members: \<^verbatim>\<open>_server\<close>, \<^verbatim>\<open>_client\<close>, whether the promise
  \<^verbatim>\<open>_bye\<close> has its value, \<^verbatim>\<open>_cfg\<close> and \<^verbatim>\<open>_jobs\<close>. The handlers registered on
  \<^verbatim>\<open>_rpc\<close> are the function \<open>handle\<close> below.
\<close>

record shard_context =
  c_server :: "endpoint option"
  c_client :: "endpoint option"
  c_bye :: bool
  c_cfg :: config
  c_jobs :: "job_rpc list"

text \<open>
  A message that arrives for a verb, with its arguments. The handler returns the
  context, the text it prints, and its reply (\<^verbatim>\<open>HELLO\<close> and \<^verbatim>\<open>BYE\<close> have none).
\<close>

datatype request = Hello | Bye | Echo "64 word"

fun verb_of :: "request \<Rightarrow> rpc_verb" where
  "verb_of Hello = HELLO"
| "verb_of Bye = BYE"
| "verb_of (Echo val) = ECHO"

fun handle :: "shard_context \<Rightarrow> request \<Rightarrow> shard_context \<times> string \<times> 64 word option" where
  "handle c Hello = (c, ''Got HELLO message from client'' @ [CHR 0x0A], None)"
| "handle c Bye =
     (c\<lparr>c_bye := True\<rparr>, ''Got BYE message from client, exiting'' @ [CHR 0x0A], None)"
| "handle c (Echo val) = (c, [], Some val)"

text \<open>
  What a context does to the world outside, with the shard it runs on: it starts to
  listen, it opens the client connection, it sends a verb to the peer, it stops the
  client or the server. The program prints the report.
\<close>

datatype action =
    Listen nat endpoint
  | Connect nat endpoint
  | Send nat rpc_verb
  | Client_stop nat
  | Server_stop nat
  | Print yaml

text \<open>
  How a future resolves: with a value, with an exception, or never (the peer does not
  answer).
\<close>

datatype outcome = Done | Raised error | Blocked

text \<open>
  What the world outside does to one shard: the readings of the clock when the jobs
  are constructed (the \<open>k\<close>-th job reads \<open>ctor_clock k\<close>), the outcome of the calls
  of \<^verbatim>\<open>HELLO\<close> and \<^verbatim>\<open>BYE\<close>, the reading of the clock when the run starts, the
  schedule of the loops of the \<open>k\<close>-th job, and whether a \<^verbatim>\<open>BYE\<close> message ever
  arrives at this shard.
\<close>

record shard_env =
  ctor_clock :: "nat \<Rightarrow> time_point"
  hello_reply :: outcome
  run_clock :: time_point
  schedules :: "nat \<Rightarrow> schedule"
  bye_arrives :: bool
  bye_reply :: outcome

fun make_jobs :: "(nat \<Rightarrow> time_point) \<Rightarrow> nat \<Rightarrow> job_config list \<Rightarrow> error + job_rpc list" where
  "make_jobs now k [] = Inr []"
| "make_jobs now k (jc # jcs) =
     (case make_job (now k) jc of
        Inl err \<Rightarrow> Inl err
      | Inr j \<Rightarrow>
          (case make_jobs now (Suc k) jcs of
             Inl err \<Rightarrow> Inl err
           | Inr js \<Rightarrow> Inr (j # js)))"

text \<open>
  The constructor, on shard \<open>i\<close>. The server and the client are created before the
  jobs; the actions are those done when the constructor returns or throws.
\<close>

definition context_ctor ::
  "nat \<Rightarrow> (nat \<Rightarrow> time_point) \<Rightarrow> ipv4_addr option \<Rightarrow> ipv4_addr option \<Rightarrow> 16 word \<Rightarrow> config
   \<Rightarrow> action list \<times> (error + shard_context)" where
  "context_ctor i now laddr caddr port conf =
     (let srv = map_option (\<lambda>a. \<lparr>addr = a, tcp_nodelay = server_config.nodelay (server conf)\<rparr>) laddr;
          cli = map_option (\<lambda>a. \<lparr>addr = a, tcp_nodelay = client_config.nodelay (client conf)\<rparr>) caddr;
          acts = (case srv of None \<Rightarrow> [] | Some e \<Rightarrow> [Listen i e])
                 @ (case cli of None \<Rightarrow> [] | Some e \<Rightarrow> [Connect i e]);
          c = \<lparr>c_server = srv, c_client = cli, c_bye = False, c_cfg = conf, c_jobs = []\<rparr>
      in case cli of
           None \<Rightarrow> (acts, Inr c)
         | Some e \<Rightarrow>
             (case make_jobs now 0 (jobs conf) of
                Inl err \<Rightarrow> (acts, Inl err)
              | Inr js \<Rightarrow> (acts, Inr (c\<lparr>c_jobs := js\<rparr>))))"

definition context_start :: "nat \<Rightarrow> shard_env \<Rightarrow> shard_context \<Rightarrow> action list \<times> outcome" where
  "context_start i env c =
     (if c_client c \<noteq> None then ([Send i HELLO], hello_reply env)
      else ([], Done))"

text \<open>
  \<^verbatim>\<open>BYE\<close> is sent, and \<^verbatim>\<open>finally\<close> stops the client when the future of the call
  has resolved, with a value or with an exception. The server is stopped in the
  branch after the one of the client.
\<close>

definition context_stop :: "nat \<Rightarrow> shard_env \<Rightarrow> shard_context \<Rightarrow> action list \<times> outcome" where
  "context_stop i env c =
     (if c_client c \<noteq> None
      then (if bye_reply env = Blocked then ([Send i BYE], Blocked)
            else ([Send i BYE, Client_stop i], bye_reply env))
      else if c_server c \<noteq> None then ([Server_stop i], Done)
      else ([], Done))"

text \<open>
  The run of one job under a schedule: the job as the loops leave it, and how the
  future of \<^verbatim>\<open>run\<close> resolves. A schedule that leaves a loop running, or that is no
  behaviour of the loops, leaves the future unresolved.
\<close>

definition job_run :: "time_point \<Rightarrow> schedule \<Rightarrow> job_rpc \<Rightarrow> job_rpc \<times> outcome" where
  "job_run t0 evs j =
     (case exec (start_run j t0) evs of
        None \<Rightarrow> (j, Blocked)
      | Some s \<Rightarrow>
          (job s, if \<not> completed s then Blocked
                  else if 0 < faulted s then Raised Rpc_error
                  else Done))"

text \<open>
  \<^verbatim>\<open>parallel_for_each\<close> and \<^verbatim>\<open>invoke_on_all\<close> wait for every future, and fail when
  one of them failed.
\<close>

definition all_outcomes :: "outcome list \<Rightarrow> outcome" where
  "all_outcomes os =
     (if Blocked \<in> set os then Blocked
      else case filter (\<lambda>out. out \<noteq> Done) os of [] \<Rightarrow> Done | out # _ \<Rightarrow> out)"

definition context_run :: "shard_env \<Rightarrow> shard_context \<Rightarrow> shard_context \<times> outcome" where
  "context_run env c =
     (if c_client c \<noteq> None
      then (let rs = map (\<lambda>(k, j). job_run (run_clock env) (schedules env k) j)
                       (enumerate 0 (c_jobs c))
            in (c\<lparr>c_jobs := map fst rs\<rparr>, all_outcomes (map snd rs)))
      else if c_server c \<noteq> None
      then (if bye_arrives env then (fst (handle c Bye), Done) else (c, Blocked))
      else (c, Done))"

definition context_emit_result :: "estimator \<Rightarrow> shard_context \<Rightarrow> (string \<times> yaml) list" where
  "context_emit_result est c = map (\<lambda>j. (job_name j, YMap (job_emit_result est j))) (c_jobs c)"

subsection \<open>The program\<close>

text \<open>
  The options of the command line (the option \<^verbatim>\<open>conf\<close> names the file of the
  configuration, which the model takes parsed), and what the world outside does to
  the process: one \<open>shard_env\<close> for each shard, so that \<^verbatim>\<open>smp::count\<close> is the
  length of \<open>shards\<close>, and the scheduling group, or the exception, that
  \<^verbatim>\<open>create_scheduling_group\<close> returns for a name and its shares.
\<close>

record options =
  listen :: string
  connect :: string
  port :: int
  duration_opt :: "32 word"

record process_env =
  shards :: "shard_env list"
  create_scheduling_group :: "string \<Rightarrow> 32 word \<Rightarrow> error + nat"

fun assign_groups ::
  "(string \<Rightarrow> 32 word \<Rightarrow> error + nat) \<Rightarrow> job_config list \<Rightarrow> error + job_config list" where
  "assign_groups mk [] = Inr []"
| "assign_groups mk (jc # jcs) =
     (case mk (name jc) (shares jc) of
        Inl err \<Rightarrow> Inl err
      | Inr g \<Rightarrow>
          (case assign_groups mk jcs of
             Inl err \<Rightarrow> Inl err
           | Inr js \<Rightarrow> Inr (jc\<lparr>sg := g\<rparr> # js)))"

text \<open>
  \<^verbatim>\<open>sharded<context>::start\<close> constructs a context on every shard from the same
  arguments, and throws when a constructor threw.
\<close>

fun all_constructed :: "(error + 'a) list \<Rightarrow> error + 'a list" where
  "all_constructed [] = Inr []"
| "all_constructed (r # rs) =
     (case r of
        Inl err \<Rightarrow> Inl err
      | Inr c \<Rightarrow>
          (case all_constructed rs of
             Inl err \<Rightarrow> Inl err
           | Inr cs \<Rightarrow> Inr (c # cs)))"

text \<open>Every job gets the duration of the command line.\<close>

definition durations :: "options \<Rightarrow> config \<Rightarrow> job_config list" where
  "durations opts conf = map (\<lambda>jc. jc\<lparr>duration := uint (duration_opt opts)\<rparr>) (jobs conf)"

text \<open>
  The program up to the start of the contexts: the addresses, the duration of every
  job, the scheduling groups, the constructors, and \<^verbatim>\<open>context::start\<close> on every
  shard. The result is the contexts, or the way the program ended.
\<close>

definition boot ::
  "process_env \<Rightarrow> options \<Rightarrow> config \<Rightarrow> action list \<times> (outcome + shard_context list)" where
  "boot env opts conf =
     (let laddr = (if listen opts \<noteq> [] then Some (listen opts, of_int (port opts)) else None);
          caddr = (if connect opts \<noteq> [] then Some (connect opts, of_int (port opts)) else None);
          jcs = durations opts conf
      in case assign_groups (create_scheduling_group env) jcs of
           Inl err \<Rightarrow> ([], Inl (Raised err))
         | Inr jcs' \<Rightarrow>
             (let ctors = map (\<lambda>(i, e). context_ctor i (ctor_clock e) laddr caddr
                                  (of_int (port opts)) (conf\<lparr>jobs := jcs'\<rparr>))
                            (enumerate 0 (shards env));
                  acts = concat (map fst ctors)
              in case all_constructed (map snd ctors) of
                   Inl err \<Rightarrow> (acts, Inl (Raised err))
                 | Inr cs \<Rightarrow>
                     (let starts = map (\<lambda>((i, e), c). context_start i e c)
                                     (zip (enumerate 0 (shards env)) cs);
                          acts' = acts @ concat (map fst starts)
                      in if all_outcomes (map snd starts) = Done then (acts', Inr cs)
                         else (acts', Inl (all_outcomes (map snd starts))))))"

definition run_all :: "process_env \<Rightarrow> shard_context list \<Rightarrow> (shard_context \<times> outcome) list" where
  "run_all env cs = map (\<lambda>(e, c). context_run e c) (zip (shards env) cs)"

definition report :: "estimator \<Rightarrow> shard_context list \<Rightarrow> yaml" where
  "report est cs =
     YSeq (map (\<lambda>(i, c). YMap ((''shard'', Number (of_nat i)) # context_emit_result est c))
             (enumerate 0 cs))"

definition stop_all :: "process_env \<Rightarrow> shard_context list \<Rightarrow> action list \<times> outcome" where
  "stop_all env cs =
     (let stops = map (\<lambda>((i, e), c). context_stop i e c) (zip (enumerate 0 (shards env)) cs)
      in (concat (map fst stops), all_outcomes (map snd stops)))"

text \<open>
  \<^verbatim>\<open>main\<close>: every \<^verbatim>\<open>get()\<close> throws the exception of a failed future, and nothing
  catches it, so the program ends there.
\<close>

definition main :: "process_env \<Rightarrow> estimator \<Rightarrow> options \<Rightarrow> config \<Rightarrow> action list \<times> outcome" where
  "main env est opts conf =
     (case boot env opts conf of
        (acts, Inl out) \<Rightarrow> (acts, out)
      | (acts, Inr cs) \<Rightarrow>
          (let runs = run_all env cs
           in if all_outcomes (map snd runs) = Done
              then (acts @ [Print (report est (map fst runs))]
                      @ fst (stop_all env (map fst runs)),
                    snd (stop_all env (map fst runs)))
              else (acts, all_outcomes (map snd runs))))"

text \<open>The actions of \<^verbatim>\<open>context::stop\<close>, and the sending of a verb.\<close>

fun teardown :: "action \<Rightarrow> bool" where
  "teardown (Send i v) = (v = BYE)"
| "teardown (Client_stop i) = True"
| "teardown (Server_stop i) = True"
| "teardown _ = False"

fun sends :: "action \<Rightarrow> bool" where
  "sends (Send i v) = True"
| "sends _ = False"

fun prints :: "action \<Rightarrow> bool" where
  "prints (Print doc) = True"
| "prints _ = False"

subsection \<open>Predicates on configurations, actions and outcomes\<close>

text \<open>A job configuration that the factory and the constructor accept.\<close>

definition recognised :: "job_config \<Rightarrow> bool" where
  "recognised jc = (type jc = ''rpc'' \<and> verb jc = ''echo'')"

text \<open>
  The actions of the constructor (the two endpoints), and those of the program up to
  the start of the run (the endpoints and the greeting).
\<close>

fun endpoint_only :: "action \<Rightarrow> bool" where
  "endpoint_only (Listen i e) = True"
| "endpoint_only (Connect i e) = True"
| "endpoint_only _ = False"

fun startup :: "action \<Rightarrow> bool" where
  "startup (Listen i e) = True"
| "startup (Connect i e) = True"
| "startup (Send i v) = (v = HELLO)"
| "startup _ = False"

text \<open>
  The ways the future of a run resolves: the only exception of a run is that of a
  failed call.
\<close>

definition resolved :: "outcome \<Rightarrow> bool" where
  "resolved out = (out = Done \<or> out = Raised Rpc_error \<or> out = Blocked)"

subsection \<open>Example runs\<close>

text \<open>
  A job of two loops that lasts one second, constructed when the clock reads 0, and
  three schedules for it. In \<open>timely_schedule\<close> both loops start at once; loop 0
  makes a call of half a millisecond and a second call that lasts until after the
  deadline, loop 1 makes one call that lasts until after the deadline, and each loop
  then finds the deadline passed. In \<open>faulty_schedule\<close> the call of loop 1 fails
  instead. In \<open>late_schedule\<close> the run starts a second and a half after the job
  was constructed.
\<close>

definition echo1 :: job_config where
  "echo1 = \<lparr>name = ''echo1'', type = ''rpc'', verb = ''echo'', parallelism = 2,
             shares = 100, duration = 1, sg = 0\<rparr>"

definition echo1_job :: job_rpc where
  "echo1_job = \<lparr>cfg = echo1, stop = 1000000000, total_messages = 0, latencies = []\<rparr>"

definition timely_schedule :: schedule where
  "timely_schedule =
     [(0, Resume 1000 1001), (1, Resume 1002 1003), (0, Reply 501001),
      (0, Resume 501002 501003), (0, Reply 1000000103),
      (0, Resume 1000000104 1000000104), (1, Reply 1000001003),
      (1, Resume 1000001004 1000001004)]"

definition timely_final :: run_state where
  "timely_final =
     \<lparr>job = echo1_job\<lparr>total_messages := 3, latencies := [500, 999499, 1000000]\<rparr>,
      loops = [Finished, Finished], clock = 1000001004\<rparr>"

definition faulty_schedule :: schedule where
  "faulty_schedule =
     [(0, Resume 1000 1001), (1, Resume 1002 1003), (0, Reply 501001),
      (0, Resume 501002 501003), (1, Failure), (0, Reply 1000000103),
      (0, Resume 1000000104 1000000104)]"

definition faulty_final :: run_state where
  "faulty_final =
     \<lparr>job = echo1_job\<lparr>total_messages := 3, latencies := [500, 999499]\<rparr>,
      loops = [Finished, Faulted], clock = 1000000104\<rparr>"

definition late_schedule :: schedule where
  "late_schedule = [(0, Resume 1500000000 1500000000), (1, Resume 1500000100 1500000100)]"

definition late_final :: run_state where
  "late_final = \<lparr>job = echo1_job, loops = [Finished, Finished], clock = 1500000100\<rparr>"

text \<open>
  A process of one shard that connects to a peer and runs \<open>echo1\<close>; the same with a
  second job whose verb is not known; the same process listening as well; and the
  contexts the constructor builds for them. \<open>plain_estimator\<close> computes the
  statistics exactly; it stands for the accumulator where a report is evaluated. Of
  no samples it has no statistics: the mean of the accumulator is the sum divided by
  the count, which is \<^verbatim>\<open>0.0 / 0\<close> then, not a number.
\<close>

definition echo_conf :: config where
  "echo_conf = \<lparr>client = \<lparr>client_config.nodelay = True\<rparr>,
                 server = \<lparr>server_config.nodelay = True\<rparr>, jobs = [echo1]\<rparr>"

definition ping_conf :: config where
  "ping_conf = echo_conf\<lparr>jobs := [echo1, echo1\<lparr>name := ''ping1'', verb := ''ping''\<rparr>]\<rparr>"

definition client_opts :: options where
  "client_opts = \<lparr>listen = [], connect = ''10.0.0.1'', port = 9123, duration_opt = 1\<rparr>"

definition both_opts :: options where
  "both_opts = client_opts\<lparr>listen := ''0.0.0.0''\<rparr>"

definition calm_shard :: shard_env where
  "calm_shard = \<lparr>ctor_clock = (\<lambda>k. 0), hello_reply = Done, run_clock = 1000,
                  schedules = (\<lambda>k. timely_schedule), bye_arrives = False, bye_reply = Done\<rparr>"

definition faulty_shard :: shard_env where
  "faulty_shard = calm_shard\<lparr>schedules := (\<lambda>k. faulty_schedule)\<rparr>"

definition one_shard :: "shard_env \<Rightarrow> process_env" where
  "one_shard e = \<lparr>shards = [e], create_scheduling_group = (\<lambda>n s. Inr 0)\<rparr>"

definition plain_estimator :: estimator where
  "plain_estimator =
     \<lparr>est_mean = (\<lambda>xs. if xs = [] then Not_finite
                         else Finite (of_int (sum_list xs) / of_nat (length xs))),
      est_quantile = (\<lambda>xs q. if xs = [] then Not_finite
                         else Finite (of_int (sort xs ! nat \<lfloor>q * of_nat (length xs - 1)\<rfloor>))),
      est_max = (\<lambda>xs. if xs = [] then Not_finite else Finite (of_int (fold max xs (hd xs)))),
      format = (\<lambda>q. if q = 1 / 2 then ''0.5'' else if q = 95 / 100 then ''0.95''
                     else if q = 99 / 100 then ''0.99'' else ''0.999'')\<rparr>"

definition echo1_report :: yaml where
  "echo1_report =
     YSeq [YMap [(''shard'', Number 0),
       (''echo1'', YMap [(''messages'', Number 3),
          (''latencies'', Comment ''usec'' (YMap
             [(''average'', Number 666666), (''p0.5'', Number 999499),
              (''p0.95'', Number 999499), (''p0.99'', Number 999499),
              (''p0.999'', Number 999499), (''max'', Number 1000000)]))])]]"

definition echo1_context :: shard_context where
  "echo1_context =
     \<lparr>c_server = None,
      c_client = Some \<lparr>addr = (''10.0.0.1'', 9123), tcp_nodelay = True\<rparr>,
      c_bye = False, c_cfg = echo_conf, c_jobs = [echo1_job]\<rparr>"

definition both_context :: shard_context where
  "both_context =
     echo1_context\<lparr>c_server := Some \<lparr>addr = (''0.0.0.0'', 9123), tcp_nodelay = True\<rparr>\<rparr>"

definition server_context :: shard_context where
  "server_context =
     \<lparr>c_server = Some \<lparr>addr = (''0.0.0.0'', 9123), tcp_nodelay = True\<rparr>,
      c_client = None, c_bye = False, c_cfg = echo_conf, c_jobs = []\<rparr>"

definition ping1 :: job_config where
  "ping1 = echo1\<lparr>name := ''ping1'', verb := ''ping''\<rparr>"

text \<open>
  The run of \<open>echo1\<close> after the first wake-up of each loop, with both calls in
  flight. The process whose run starts after the deadline of its job, and the report
  it prints.
\<close>

definition echo1_started :: run_state where
  "echo1_started =
     \<lparr>job = echo1_job\<lparr>total_messages := 2\<rparr>,
      loops = [In_flight 1001, In_flight 1003], clock = 1003\<rparr>"

definition late_shard :: shard_env where
  "late_shard = calm_shard\<lparr>run_clock := 1500000000, schedules := (\<lambda>k. late_schedule)\<rparr>"

definition late_report :: yaml where
  "late_report =
     YSeq [YMap [(''shard'', Number 0),
       (''echo1'', YMap [(''messages'', Number 0),
          (''latencies'', Comment ''usec'' (YMap
             [(''average'', Unspecified), (''p0.5'', Unspecified),
              (''p0.95'', Unspecified), (''p0.99'', Unspecified),
              (''p0.999'', Unspecified), (''max'', Unspecified)]))])]]"

subsection \<open>Facts about the serializer\<close>

lemma length_le_bytes: "length (le_bytes n v) = n"
  by (induction n arbitrary: v) auto

lemma le_value_le_bytes: "le_value (le_bytes n v) = v mod 256 ^ n"
proof (induction n arbitrary: v)
  case 0
  show ?case by simp
next
  case (Suc n)
  have "unat (of_nat (v mod 256) :: byte) = v mod 256"
    by (simp add: unat_of_nat)
  with Suc show ?case
    by (simp add: mod_mult2_eq)
qed

lemma length_object_bytes: "length (object_bytes e v) = sizeof v"
  by (cases e) (simp_all add: object_bytes_def length_le_bytes)

lemma object_of_bytes_inverse:
  fixes v :: "'a::len word"
  assumes "8 * (LENGTH('a) div 8) = LENGTH('a)"
  shows "object_of_bytes e (object_bytes e v) = v"
proof -
  have pow: "(256::nat) ^ (LENGTH('a) div 8) = 2 ^ LENGTH('a)"
  proof -
    have "(256::nat) ^ (LENGTH('a) div 8) = 2 ^ (8 * (LENGTH('a) div 8))"
      by (simp add: power_mult)
    with assms show ?thesis by simp
  qed
  have "unat v < 2 ^ LENGTH('a)"
    by (rule unsigned_less)
  then have "unat v mod 256 ^ (LENGTH('a) div 8) = unat v"
    by (simp add: pow)
  then have "le_value (le_bytes (sizeof v) (unat v)) = unat v"
    by (simp add: le_value_le_bytes sizeof_def)
  then show ?thesis
    by (cases e) (simp_all add: object_of_bytes_def object_bytes_def)
qed

lemma read_write_arithmetic_type:
  fixes v :: "'a::len word"
  assumes "8 * (LENGTH('a) div 8) = LENGTH('a)"
  shows "read_arithmetic_type e (write_arithmetic_type e [] v @ rest) = Inr (v, rest)"
proof -
  have "length (object_bytes e v) = LENGTH('a) div 8"
    by (simp add: length_object_bytes sizeof_def)
  then show ?thesis
    using object_of_bytes_inverse [OF assms, where e = e and v = v]
    by (simp add: read_arithmetic_type_def write_arithmetic_type_def out_write_def
        in_read_def sizeof_def)
qed

lemma length_write_arithmetic_type:
  "length (write_arithmetic_type e out v) = length out + sizeof v"
  by (simp add: write_arithmetic_type_def out_write_def length_object_bytes)

text \<open>
  Claim C4. For every value of a fixed-width numeric type (signed and unsigned 32-bit
  and 64-bit integers, double), decoding the bytes that encoding the value produced
  returns a value with the same bits as the original: the decode succeeds, consumes
  exactly those bytes, and the object representation of its result is that of the
  original. The result is the original itself for every type but \<^verbatim>\<open>int64_t\<close>, whose
  bits come back typed \<^verbatim>\<open>uint64_t\<close>.
\<close>

theorem numeric_roundtrip_bit_identical:
  "\<exists>v'. serializer_read e (serializer_write e [] v @ rest) (rpc_type_of v) = Inr (v', rest)
        \<and> bits e v' = bits e v
        \<and> v' = (case v of Int64 w \<Rightarrow> UInt64 w | _ \<Rightarrow> v)"
  by (cases v) (simp_all add: read_write_arithmetic_type)

text \<open>
  Claim C3. For every string \<open>s\<close>, encoding \<open>s\<close> and then decoding the produced
  bytes returns a string equal to \<open>s\<close>, and the decode consumes \<open>4 + length s\<close>
  bytes: the input left over is what followed the encoding.
\<close>

theorem sstring_roundtrip:
  "read_sstring e (write_sstring e [] s @ rest) = Inr (s, rest)
   \<and> length (write_sstring e [] s @ rest) - length rest = 4 + size_sstring s"
proof -
  have bound: "size_sstring s < 2 ^ 32"
    using Rep_sstring [of s] by (simp add: size_sstring_def)
  have sz: "unat (of_nat (size_sstring s) :: 32 word) = size_sstring s"
    using bound by (simp add: unat_of_nat)
  have take: "take (size_sstring s) (c_str s) = c_str s"
    by (simp add: c_str_def size_sstring_def)
  have enc: "write_sstring e [] s
      = write_arithmetic_type e [] (of_nat (size_sstring s) :: 32 word) @ c_str s"
    by (simp add: write_sstring_def out_write_def take)
  have hd: "(read_arithmetic_type e (write_sstring e [] s @ rest) :: error + (32 word \<times> buffer))
      = Inr (of_nat (size_sstring s), c_str s @ rest)"
    using read_write_arithmetic_type
      [where v = "of_nat (size_sstring s) :: 32 word" and e = e and rest = "c_str s @ rest"]
    by (simp add: enc)
  have body: "in_read (c_str s @ rest) (size_sstring s) = Inr (c_str s, rest)"
    by (simp add: in_read_def c_str_def size_sstring_def)
  have "read_sstring e (write_sstring e [] s @ rest) = Inr (Abs_sstring (c_str s), rest)"
    by (simp add: read_sstring_def hd sz body)
  moreover have "Abs_sstring (c_str s) = s"
    by (simp add: c_str_def Rep_sstring_inverse)
  moreover have "length (write_sstring e [] s) = 4 + size_sstring s"
    by (simp add: enc length_write_arithmetic_type sizeof_def c_str_def size_sstring_def)
  ultimately show ?thesis by simp
qed


subsection \<open>Facts about the call loops\<close>

lemma length_filter_update:
  "i < length xs \<Longrightarrow>
   length (filter P (xs[i := y])) + (if P (xs ! i) then 1 else 0)
   = length (filter P xs) + (if P y then 1 else 0)"
proof (induction xs arbitrary: i)
  case Nil
  then show ?case by simp
next
  case (Cons x xs)
  then show ?case by (cases i) auto
qed

lemma step_Some:
  assumes "step s (i, w) = Some s'"
  shows "i < length (loops s)"
    and "\<exists>c j l. iteration (clock s) (job s) (loops s ! i) w = Some (c, j, l)
          \<and> s' = \<lparr>job = j, loops = (loops s)[i := l], clock = c\<rparr>"
  using assms by (auto simp: step_def split: if_splits option.splits)

lemma iteration_cases:
  assumes "iteration c j l w = Some (c', j', l')"
  obtains
    (finish) t t' where "l = Ready" "w = Resume t t'" "c \<le> t" "stop j < t"
      "c' = t" "j' = j" "l' = Finished"
  | (issue) t t' where "l = Ready" "w = Resume t t'" "c \<le> t" "t \<le> stop j" "t \<le> t'"
      "c' = t'" "j' = j\<lparr>total_messages := total_messages j + 1\<rparr>" "l' = In_flight t'"
  | (reply) start t where "l = In_flight start" "w = Reply t" "c \<le> t" "c' = t"
      "j' = j\<lparr>latencies := latencies j @ [duration_cast_microseconds (t - start)]\<rparr>"
      "l' = Ready"
  | (failure) start where "l = In_flight start" "w = Failure" "c' = c" "j' = j" "l' = Faulted"
  using assms by (cases "(c, j, l, w)" rule: iteration.cases) (auto split: if_splits)

lemma step_issues:
  assumes "step s (i, w) = Some s'"
  shows "total_messages (job s') = total_messages (job s) + (if issues (stop (job s)) (i, w) then 1 else 0)"
    and "stop (job s') = stop (job s)" and "cfg (job s') = cfg (job s)"
    and "length (loops s') = length (loops s)" and "clock s \<le> clock s'"
    and "(Finished \<in> set (loops s) \<longrightarrow> stop (job s) < clock s)
         \<Longrightarrow> (Finished \<in> set (loops s') \<longrightarrow> stop (job s') < clock s')"
proof -
  from step_Some [OF assms] obtain c j l where
    i: "i < length (loops s)" and
    it: "iteration (clock s) (job s) (loops s ! i) w = Some (c, j, l)" and
    s': "s' = \<lparr>job = j, loops = (loops s)[i := l], clock = c\<rparr>"
    by blast
  from it show "total_messages (job s') = total_messages (job s) + (if issues (stop (job s)) (i, w) then 1 else 0)"
    by (cases rule: iteration_cases) (simp_all add: s')
  from it show "stop (job s') = stop (job s)"
    by (cases rule: iteration_cases) (simp_all add: s')
  from it show "cfg (job s') = cfg (job s)"
    by (cases rule: iteration_cases) (simp_all add: s')
  show "length (loops s') = length (loops s)"
    by (simp add: s')
  from it show "clock s \<le> clock s'"
    by (cases rule: iteration_cases) (simp_all add: s')
  assume inv: "Finished \<in> set (loops s) \<longrightarrow> stop (job s) < clock s"
  have sub: "set ((loops s)[i := l]) \<subseteq> insert l (set (loops s))"
    by (rule set_update_subset_insert)
  from it show "Finished \<in> set (loops s') \<longrightarrow> stop (job s') < clock s'"
  proof (cases rule: iteration_cases)
    case (finish t t')
    then show ?thesis by (simp add: s')
  next
    case (issue t t')
    with sub inv show ?thesis by (auto simp: s')
  next
    case (reply start t)
    with sub inv show ?thesis by (auto simp: s')
  next
    case (failure start)
    with sub inv show ?thesis by (auto simp: s')
  qed
qed


lemma exec_issues:
  assumes "exec s evs = Some s'"
  shows "total_messages (job s')
         = total_messages (job s) + of_nat (length (filter (issues (stop (job s))) evs))
       \<and> stop (job s') = stop (job s) \<and> cfg (job s') = cfg (job s)
       \<and> length (loops s') = length (loops s) \<and> clock s \<le> clock s'"
  using assms
proof (induction evs arbitrary: s)
  case Nil
  then show ?case by simp
next
  case (Cons ev evs)
  obtain i w where ev: "ev = (i, w)" by (cases ev)
  from Cons.prems obtain s1 where s1: "step s (i, w) = Some s1" and rest: "exec s1 evs = Some s'"
    by (auto simp: ev split: option.splits)
  note one = step_issues(1-5) [OF s1]
  from Cons.IH [OF rest] one show ?case
    by (simp add: ev)
qed

lemma step_accounted_issues:
  assumes "step s (i, w) = Some s'"
  shows "accounted s' = accounted s + (if issues (stop (job s)) (i, w) then 1 else 0)"
proof -
  from step_Some [OF assms] obtain c j l where
    i: "i < length (loops s)" and
    it: "iteration (clock s) (job s) (loops s ! i) w = Some (c, j, l)" and
    s': "s' = \<lparr>job = j, loops = (loops s)[i := l], clock = c\<rparr>"
    by blast
  have w: "length (filter waiting ((loops s)[i := l])) + (if waiting (loops s ! i) then 1 else 0)
      = length (filter waiting (loops s)) + (if waiting l then 1 else 0)"
    by (rule length_filter_update [OF i])
  have f: "length (filter (\<lambda>l. l = Faulted) ((loops s)[i := l])) + (if loops s ! i = Faulted then 1 else 0)
      = length (filter (\<lambda>l. l = Faulted) (loops s)) + (if l = Faulted then 1 else 0)"
    by (rule length_filter_update [OF i])
  from it show ?thesis
  proof (cases rule: iteration_cases)
    case (finish t t')
    with w f show ?thesis
      by (simp add: s' accounted_def in_flight_def faulted_def waiting_def)
  next
    case (issue t t')
    with w f show ?thesis
      by (simp add: s' accounted_def in_flight_def faulted_def waiting_def)
  next
    case (reply start t)
    with w f show ?thesis
      by (simp add: s' accounted_def in_flight_def faulted_def waiting_def)
  next
    case (failure start)
    with w f show ?thesis
      by (simp add: s' accounted_def in_flight_def faulted_def waiting_def)
  qed
qed

lemma exec_accounted_issues:
  assumes "exec s evs = Some s'"
  shows "accounted s' = accounted s + length (filter (issues (stop (job s))) evs)"
  using assms
proof (induction evs arbitrary: s)
  case Nil
  then show ?case by simp
next
  case (Cons ev evs)
  obtain i w where ev: "ev = (i, w)" by (cases ev)
  from Cons.prems obtain s1 where s1: "step s (i, w) = Some s1" and rest: "exec s1 evs = Some s'"
    by (auto simp: ev split: option.splits)
  from step_accounted_issues [OF s1] step_issues(2) [OF s1] Cons.IH [OF rest] show ?case
    by (simp add: ev)
qed

lemma exec_finished_after_deadline:
  assumes "exec s evs = Some s'"
    and "Finished \<in> set (loops s) \<longrightarrow> stop (job s) < clock s"
  shows "Finished \<in> set (loops s') \<longrightarrow> stop (job s') < clock s'"
  using assms
proof (induction evs arbitrary: s)
  case Nil
  then show ?case by simp
next
  case (Cons ev evs)
  obtain i w where ev: "ev = (i, w)" by (cases ev)
  from Cons.prems(1) obtain s1 where s1: "step s (i, w) = Some s1" and rest: "exec s1 evs = Some s'"
    by (auto simp: ev split: option.splits)
  from step_issues(6) [OF s1 Cons.prems(2)] Cons.IH [OF rest] show ?case
    by blast
qed

lemma started_in_time_issues:
  assumes "started_in_time j evs"
  shows "unat (parallelism (cfg j)) \<le> length (filter (issues (stop j)) evs)"
proof -
  let ?n = "unat (parallelism (cfg j))"
  let ?f = "\<lambda>i. (i, the (map_of evs i))"
  have each: "?f i \<in> set (filter (issues (stop j)) evs)" if "i < ?n" for i
  proof -
    from assms that
    have "case map_of evs i of Some (Resume t t') \<Rightarrow> t \<le> stop j | _ \<Rightarrow> False"
      by (simp add: started_in_time_def list_all_iff)
    then obtain t t' where m: "map_of evs i = Some (Resume t t')" and t: "t \<le> stop j"
      by (auto split: option.splits wakeup.splits)
    from map_of_SomeD [OF m] t show ?thesis
      by (simp add: m)
  qed
  have "inj_on ?f {..<?n}"
    by (rule inj_onI) simp
  then have "card (?f ` {..<?n}) = ?n"
    by (simp add: card_image)
  moreover have "?f ` {..<?n} \<subseteq> set (filter (issues (stop j)) evs)"
    using each by auto
  then have "card (?f ` {..<?n}) \<le> card (set (filter (issues (stop j)) evs))"
    by (rule card_mono [rotated]) simp
  moreover have "card (set (filter (issues (stop j)) evs)) \<le> length (filter (issues (stop j)) evs)"
    by (rule card_length)
  ultimately show ?thesis by linarith
qed

lemma completed_unfaulted:
  assumes "completed s" and "faulted s = 0" and "loops s \<noteq> []"
  shows "Finished \<in> set (loops s)"
proof -
  from assms(3) obtain l where l: "l \<in> set (loops s)"
    by (cases "loops s") auto
  with assms(1) have "l = Finished \<or> l = Faulted"
    by (auto simp: completed_def ended_def list_all_iff)
  moreover from assms(2) l have "l \<noteq> Faulted"
    by (auto simp: faulted_def filter_empty_conv)
  ultimately show ?thesis using l by simp
qed

lemma completed_in_flight: "completed s \<Longrightarrow> in_flight s = 0"
  by (auto simp: completed_def in_flight_def ended_def waiting_def list_all_iff filter_empty_conv)

lemma faulted_le: "faulted s \<le> length (loops s)"
  by (simp add: faulted_def)


text \<open>
  Claim C1, as the code has it. The claim reads: for every job configured with
  concurrency \<open>N\<close> and duration \<open>D\<close>, \<^verbatim>\<open>run\<close> completes no earlier than \<open>D\<close>
  has elapsed on the clock of the deadline (construction time plus \<open>D\<close>), and the
  total call count is then at least \<open>N\<close>.

  The stop condition is evaluated before the first call of a loop, and the deadline
  counts from the construction of the job, not from the start of the run. What holds
  is this. Let a job be constructed at clock reading \<open>now\<close>, and let its run complete
  with no failed call. If the job has at least one loop, the clock has then been read
  past the deadline \<open>now + D\<close>. If every loop was first woken with the deadline not
  passed, and fewer than \<open>2 ^ 64\<close> wake-ups happened (the counter has 64 bits), the
  total call count is at least \<open>N\<close>.
\<close>

theorem run_deadline_and_count:
  assumes "job_rpc_ctor now c = Inr j"
    and "exec (start_run j t0) evs = Some s"
    and "completed s" and "faulted s = 0"
  shows "(0 < unat (parallelism c) \<longrightarrow> now + seconds (duration c) < clock s)
       \<and> (started_in_time j evs \<and> length evs < 2 ^ 64
            \<longrightarrow> unat (parallelism c) \<le> unat (total_messages (job s)))"
proof -
  from assms(1) have j: "cfg j = c" "stop j = now + seconds (duration c)" "total_messages j = 0"
    by (auto simp: job_rpc_ctor_def split: if_splits)
  note ex = exec_issues [OF assms(2)]
  have deadline: "now + seconds (duration c) < clock s" if "0 < unat (parallelism c)"
  proof -
    from that ex have "loops s \<noteq> []"
      by (auto simp: start_run_def j)
    from completed_unfaulted [OF assms(3,4) this]
      exec_finished_after_deadline [OF assms(2)]
    have "stop (job s) < clock s"
      by (simp add: start_run_def)
    with ex show ?thesis
      by (simp add: start_run_def j)
  qed
  have count: "unat (parallelism c) \<le> unat (total_messages (job s))"
    if "started_in_time j evs" and "length evs < 2 ^ 64"
  proof -
    let ?k = "length (filter (issues (stop j)) evs)"
    have "?k \<le> length evs" by simp
    with that(2) have "?k < 2 ^ 64" by linarith
    then have "unat (of_nat ?k :: 64 word) = ?k"
      by (simp add: unat_of_nat)
    moreover from ex have "total_messages (job s) = of_nat ?k"
      by (simp add: start_run_def j)
    ultimately show ?thesis
      using started_in_time_issues [OF that(1)] by (simp add: j)
  qed
  from deadline count show ?thesis by blast
qed

theorem run_deadline_and_count_witness:
  "job_rpc_ctor 0 echo1 = Inr echo1_job
   \<and> exec (start_run echo1_job 1000) timely_schedule = Some timely_final
   \<and> completed timely_final \<and> faulted timely_final = 0
   \<and> 0 < unat (parallelism echo1)
   \<and> started_in_time echo1_job timely_schedule \<and> length timely_schedule < 2 ^ 64
   \<and> 0 + seconds (duration echo1) < clock timely_final
   \<and> unat (parallelism echo1) \<le> unat (total_messages (job timely_final))"
proof -
  have a: "job_rpc_ctor 0 echo1 = Inr echo1_job" by code_simp
  have b: "exec (start_run echo1_job 1000) timely_schedule = Some timely_final" by code_simp
  have c: "completed timely_final" by code_simp
  have d: "faulted timely_final = 0" by code_simp
  have e: "0 < unat (parallelism echo1)" by code_simp
  have f: "started_in_time echo1_job timely_schedule" by code_simp
  have g: "length timely_schedule < 2 ^ 64" by (simp add: timely_schedule_def)
  from run_deadline_and_count [OF a b c d] e f g
  have "0 + seconds (duration echo1) < clock timely_final
      \<and> unat (parallelism echo1) \<le> unat (total_messages (job timely_final))"
    by blast
  with a b c d e f g show ?thesis by blast
qed

text \<open>
  The claim itself fails when the run starts after the deadline: the job \<open>echo1\<close>
  lasts one second and has two loops; it is constructed at clock reading 0 and its run
  starts at 1.5 seconds. Both loops find the deadline passed at their first check, the
  run completes without a failure, and no call was made.
\<close>

theorem run_late_start_counterexample:
  "job_rpc_ctor 0 echo1 = Inr echo1_job
   \<and> exec (start_run echo1_job 1500000000) late_schedule = Some late_final
   \<and> completed late_final \<and> faulted late_final = 0
   \<and> 0 + seconds (duration echo1) \<le> clock late_final
   \<and> unat (total_messages (job late_final)) = 0
   \<and> \<not> unat (parallelism echo1) \<le> unat (total_messages (job late_final))"
  by code_simp

text \<open>
  Claim C10. In every iteration of a call loop the counter is incremented before the
  call is issued, not after its reply: at every moment of a run the counter equals
  the samples given to the accumulator plus the calls in flight plus the calls that
  failed (as 64-bit numbers; as numbers, when fewer than \<open>2 ^ 64\<close> wake-ups
  happened). So when the run completes with no failed call the counter equals the
  number of samples, and when it completes after a call failed the counter has
  counted each failed call, for which there is no sample.
\<close>

theorem total_messages_counts_issued_calls:
  assumes "job_rpc_ctor now c = Inr j" and "exec (start_run j t0) evs = Some s"
  shows "total_messages (job s) = of_nat (length (latencies (job s)) + in_flight s + faulted s)
       \<and> (length evs < 2 ^ 64
            \<longrightarrow> unat (total_messages (job s))
                = length (latencies (job s)) + in_flight s + faulted s)
       \<and> (completed s \<and> faulted s = 0
            \<longrightarrow> total_messages (job s) = of_nat (length (latencies (job s))))
       \<and> (completed s \<and> 0 < faulted s
            \<longrightarrow> total_messages (job s) = of_nat (length (latencies (job s)) + faulted s)
              \<and> total_messages (job s) \<noteq> of_nat (length (latencies (job s))))"
proof -
  from assms(1) have j: "cfg j = c" "total_messages j = 0" "latencies j = []"
    by (auto simp: job_rpc_ctor_def split: if_splits)
  let ?k = "length (filter (issues (stop j)) evs)"
  have "accounted (start_run j t0) = 0"
    by (simp add: accounted_def start_run_def in_flight_def faulted_def waiting_def j)
  with exec_accounted_issues [OF assms(2)] have k: "accounted s = ?k"
    by (simp add: start_run_def)
  with exec_issues [OF assms(2)]
  have inv: "total_messages (job s) = of_nat (accounted s)"
    by (simp add: start_run_def j)
  have exact: "unat (total_messages (job s)) = accounted s" if "length evs < 2 ^ 64"
  proof -
    have "?k \<le> length evs" by simp
    with that k have "accounted s < 2 ^ 64" by linarith
    with inv show ?thesis
      by (simp add: unat_of_nat)
  qed
  have n: "length (loops s) = unat (parallelism c)"
    using exec_issues [OF assms(2)] by (simp add: start_run_def j)
  have "unat (parallelism c) < 2 ^ 32"
    using unsigned_less [of "parallelism c"] by simp
  with n faulted_le [of s] have small: "faulted s < 2 ^ 64"
    by (simp add: order_le_less_trans [OF _ less_trans [of _ "2 ^ 32"]])
  have ne: "(of_nat (faulted s) :: 64 word) \<noteq> 0" if "0 < faulted s"
  proof -
    from small have "unat (of_nat (faulted s) :: 64 word) = faulted s"
      by (simp add: unat_of_nat)
    with that show ?thesis by (metis less_numeral_extra(3) unat_0)
  qed
  from inv exact completed_in_flight [of s] ne show ?thesis
    by (auto simp: accounted_def)
qed

theorem total_messages_counts_issued_calls_witness:
  "job_rpc_ctor 0 echo1 = Inr echo1_job
   \<and> exec (start_run echo1_job 1000) timely_schedule = Some timely_final
   \<and> completed timely_final \<and> faulted timely_final = 0
   \<and> length timely_schedule < 2 ^ 64
   \<and> unat (total_messages (job timely_final))
       = length (latencies (job timely_final)) + in_flight timely_final + faulted timely_final
   \<and> total_messages (job timely_final) = of_nat (length (latencies (job timely_final)))
   \<and> exec (start_run echo1_job 1000) faulty_schedule = Some faulty_final
   \<and> completed faulty_final \<and> 0 < faulted faulty_final
   \<and> total_messages (job faulty_final)
       = of_nat (length (latencies (job faulty_final)) + faulted faulty_final)
   \<and> total_messages (job faulty_final) \<noteq> of_nat (length (latencies (job faulty_final)))"
proof -
  have a: "job_rpc_ctor 0 echo1 = Inr echo1_job" by code_simp
  have b: "exec (start_run echo1_job 1000) timely_schedule = Some timely_final" by code_simp
  have c: "completed timely_final" by code_simp
  have d: "faulted timely_final = 0" by code_simp
  have e: "length timely_schedule < 2 ^ 64" by (simp add: timely_schedule_def)
  have b': "exec (start_run echo1_job 1000) faulty_schedule = Some faulty_final" by code_simp
  have c': "completed faulty_final" by code_simp
  have d': "0 < faulted faulty_final" by code_simp
  from total_messages_counts_issued_calls [OF a b] c d e
  have clean: "unat (total_messages (job timely_final))
       = length (latencies (job timely_final)) + in_flight timely_final + faulted timely_final
     \<and> total_messages (job timely_final) = of_nat (length (latencies (job timely_final)))"
    by blast
  from total_messages_counts_issued_calls [OF a b'] c' d'
  have faulty: "total_messages (job faulty_final)
       = of_nat (length (latencies (job faulty_final)) + faulted faulty_final)
     \<and> total_messages (job faulty_final) \<noteq> of_nat (length (latencies (job faulty_final)))"
    by blast
  from a b c d e clean b' c' d' faulty show ?thesis by blast
qed

subsection \<open>Facts about the contexts and the program\<close>

lemma make_job_Inr: "recognised jc \<Longrightarrow> \<exists>j. make_job now jc = Inr j \<and> cfg j = jc"
  by (simp add: recognised_def make_job_def job_rpc_ctor_def)

lemma make_job_Inl:
  "\<not> recognised jc \<Longrightarrow>
   make_job now jc
   = Inl (Runtime_error (if type jc = ''rpc'' then ''unknown verb'' else ''unknown job type''))"
  by (auto simp: recognised_def make_job_def job_rpc_ctor_def)

lemma make_jobs_Inl:
  "\<not> list_all recognised jcs \<Longrightarrow>
   \<exists>msg \<in> {''unknown verb'', ''unknown job type''}.
     \<forall>now k. make_jobs now k jcs = Inl (Runtime_error msg)"
proof (induction jcs)
  case Nil
  then show ?case by simp
next
  case (Cons jc jcs)
  show ?case
  proof (cases "recognised jc")
    case True
    with Cons.prems have "\<not> list_all recognised jcs" by simp
    from Cons.IH [OF this] obtain msg where
      set: "msg \<in> {''unknown verb'', ''unknown job type''}" and
      msg: "\<And>now k. make_jobs now k jcs = Inl (Runtime_error msg)"
      by blast
    have "make_jobs now k (jc # jcs) = Inl (Runtime_error msg)" for now k
      using make_job_Inr [OF True, of "now k"] msg [of now "Suc k"] by auto
    with set show ?thesis by blast
  next
    case False
    let ?msg = "if type jc = ''rpc'' then ''unknown verb'' else ''unknown job type''"
    have "make_jobs now k (jc # jcs) = Inl (Runtime_error ?msg)" for now k
      using make_job_Inl [OF False, of "now k"] by simp
    moreover have "?msg \<in> {''unknown verb'', ''unknown job type''}" by simp
    ultimately show ?thesis by blast
  qed
qed

lemma make_jobs_Inr:
  "make_jobs now k jcs = Inr js \<Longrightarrow> map cfg js = jcs"
proof (induction jcs arbitrary: k js)
  case Nil
  then show ?case by simp
next
  case (Cons jc jcs)
  from Cons.prems obtain j js' where j: "make_job (now k) jc = Inr j"
    and js': "make_jobs now (Suc k) jcs = Inr js'" and js: "js = j # js'"
    by (auto split: sum.splits)
  from j have "cfg j = jc"
    by (auto simp: make_job_def job_rpc_ctor_def split: if_splits)
  with Cons.IH [OF js'] js show ?case by simp
qed

lemma assign_groups_recognised:
  "assign_groups mk jcs = Inr jcs' \<Longrightarrow> list_all recognised jcs' = list_all recognised jcs
     \<and> map name jcs' = map name jcs"
proof (induction jcs arbitrary: jcs')
  case Nil
  then show ?case by simp
next
  case (Cons jc jcs)
  from Cons.prems obtain g js where g: "mk (name jc) (shares jc) = Inr g"
    and js: "assign_groups mk jcs = Inr js" and jcs': "jcs' = jc\<lparr>sg := g\<rparr> # js"
    by (auto split: sum.splits)
  from Cons.IH [OF js] show ?case
    by (simp add: jcs' recognised_def)
qed

lemma all_constructed_Inr:
  "all_constructed rs = Inr cs \<Longrightarrow> rs = map Inr cs"
proof (induction rs arbitrary: cs)
  case Nil
  then show ?case by simp
next
  case (Cons r rs)
  then show ?case by (auto split: sum.splits)
qed

lemma all_constructed_Inl:
  "rs \<noteq> [] \<Longrightarrow> \<forall>r \<in> set rs. r = Inl err \<Longrightarrow> all_constructed rs = Inl err"
  by (cases rs) auto

lemma context_ctor_actions:
  "list_all endpoint_only (fst (context_ctor i now laddr caddr p conf))"
proof (cases caddr)
  case None
  then show ?thesis by (cases laddr) (simp_all add: context_ctor_def)
next
  case (Some ca)
  then show ?thesis
    by (cases laddr; cases "make_jobs now 0 (jobs conf)") (simp_all add: context_ctor_def)
qed

lemma context_ctor_action:
  "a \<in> set (fst (context_ctor i now laddr caddr p conf)) \<Longrightarrow> endpoint_only a"
  using context_ctor_actions [of i now laddr caddr p conf] by (simp add: list_all_iff)

lemma context_ctor_bad:
  assumes "\<not> list_all recognised (jobs conf)"
  shows "\<exists>msg \<in> {''unknown verb'', ''unknown job type''}.
    \<forall>i now p. snd (context_ctor i now laddr (Some ca) p conf) = Inl (Runtime_error msg)"
proof -
  from make_jobs_Inl [OF assms] obtain msg where
    set: "msg \<in> {''unknown verb'', ''unknown job type''}" and
    "\<And>now k. make_jobs now k (jobs conf) = Inl (Runtime_error msg)"
    by blast
  then have "snd (context_ctor i now laddr (Some ca) p conf) = Inl (Runtime_error msg)" for i now p
    by (simp add: context_ctor_def Let_def)
  with set show ?thesis by blast
qed

lemma context_ctor_Inr:
  assumes "snd (context_ctor i now laddr caddr p conf) = Inr c"
  shows "c_server c = map_option (\<lambda>a. \<lparr>addr = a, tcp_nodelay = server_config.nodelay (server conf)\<rparr>) laddr"
    and "c_client c = map_option (\<lambda>a. \<lparr>addr = a, tcp_nodelay = client_config.nodelay (client conf)\<rparr>) caddr"
    and "caddr \<noteq> None \<Longrightarrow> map cfg (c_jobs c) = jobs conf"
    and "caddr = None \<Longrightarrow> c_jobs c = []"
proof -
  let ?c0 = "\<lparr>c_server = map_option (\<lambda>a. \<lparr>addr = a, tcp_nodelay = server_config.nodelay (server conf)\<rparr>) laddr,
      c_client = map_option (\<lambda>a. \<lparr>addr = a, tcp_nodelay = client_config.nodelay (client conf)\<rparr>) caddr,
      c_bye = False, c_cfg = conf, c_jobs = []\<rparr>"
  have c: "(caddr = None \<and> c = ?c0)
      \<or> (caddr \<noteq> None \<and> (\<exists>js. make_jobs now 0 (jobs conf) = Inr js \<and> c = ?c0\<lparr>c_jobs := js\<rparr>))"
  proof (cases caddr)
    case None
    with assms show ?thesis by (simp add: context_ctor_def)
  next
    case (Some ca)
    with assms show ?thesis
      by (cases "make_jobs now 0 (jobs conf)") (simp_all add: context_ctor_def)
  qed
  from c show "c_server c = map_option (\<lambda>a. \<lparr>addr = a, tcp_nodelay = server_config.nodelay (server conf)\<rparr>) laddr"
    by auto
  from c show "c_client c = map_option (\<lambda>a. \<lparr>addr = a, tcp_nodelay = client_config.nodelay (client conf)\<rparr>) caddr"
    by auto
  from c show "caddr \<noteq> None \<Longrightarrow> map cfg (c_jobs c) = jobs conf"
    by (auto dest: make_jobs_Inr)
  from c show "caddr = None \<Longrightarrow> c_jobs c = []"
    by auto
qed

lemma context_run_endpoints:
  "c_server (fst (context_run e c)) = c_server c \<and> c_client (fst (context_run e c)) = c_client c"
  by (simp add: context_run_def Let_def)

lemma context_stop_client:
  "c_client c \<noteq> None \<Longrightarrow>
   fst (context_stop i env c)
   = (if bye_reply env = Blocked then [Send i BYE] else [Send i BYE, Client_stop i])"
  by (simp add: context_stop_def)

lemma context_stop_server:
  assumes "Server_stop i \<in> set (fst (context_stop i env d))"
  shows "c_client d = None"
proof (rule ccontr)
  assume "c_client d \<noteq> None"
  from context_stop_client [OF this, of i env] assms show False
    by (simp split: if_splits)
qed

lemma list_all_concat: "list_all (list_all P) xss \<Longrightarrow> list_all P (concat xss)"
  by (induction xss) simp_all

lemma durations_recognised: "list_all recognised (durations opts conf) = list_all recognised (jobs conf)"
  by (simp add: durations_def list_all_iff recognised_def)

lemma boot_unrecognised:
  assumes bad: "\<not> list_all recognised (jobs conf)"
    and cli: "connect opts \<noteq> []" and smp: "shards env \<noteq> []"
    and groups: "assign_groups (create_scheduling_group env) (durations opts conf) = Inr gs"
  shows "\<exists>acts. \<exists>msg \<in> {''unknown verb'', ''unknown job type''}.
    boot env opts conf = (acts, Inl (Raised (Runtime_error msg))) \<and> list_all endpoint_only acts"
proof -
  define laddr where
    "laddr = (if listen opts \<noteq> [] then Some (listen opts, of_int (port opts) :: 16 word) else None)"
  let ?ca = "(connect opts, of_int (port opts) :: 16 word)"
  let ?conf = "conf\<lparr>jobs := gs\<rparr>"
  let ?ctors = "map (\<lambda>(i, e). context_ctor i (ctor_clock e) laddr (Some ?ca)
                                  (of_int (port opts)) ?conf)
                            (enumerate 0 (shards env))"
  from assign_groups_recognised [OF groups] bad
  have "\<not> list_all recognised (jobs ?conf)"
    by (simp add: durations_recognised)
  from context_ctor_bad [OF this, of laddr ?ca] obtain msg where
    set: "msg \<in> {''unknown verb'', ''unknown job type''}" and
    msg: "\<And>i now p. snd (context_ctor i now laddr (Some ?ca) p ?conf) = Inl (Runtime_error msg)"
    by blast
  have "\<forall>r \<in> set (map snd ?ctors). r = Inl (Runtime_error msg)"
    by (auto simp: msg)
  moreover from smp have "map snd ?ctors \<noteq> []"
    by (cases "shards env") simp_all
  ultimately have all: "all_constructed (map snd ?ctors) = Inl (Runtime_error msg)"
    by (rule all_constructed_Inl [rotated])
  have acts: "list_all endpoint_only (concat (map fst ?ctors))"
    by (rule list_all_concat) (auto simp: list_all_iff dest: context_ctor_action)
  have "boot env opts conf = (concat (map fst ?ctors), Inl (Raised (Runtime_error msg)))"
    using groups cli all by (simp add: boot_def durations_def Let_def laddr_def)
  with set acts show ?thesis by blast
qed

lemma job_run_faulted:
  assumes "exec (start_run j t0) evs = Some s" and "completed s" and "0 < faulted s"
  shows "snd (job_run t0 evs j) = Raised Rpc_error"
  using assms by (simp add: job_run_def)

lemma job_run_resolved: "resolved (snd (job_run t0 evs j))"
  by (simp add: job_run_def resolved_def split: option.splits)

lemma all_outcomes_Raised:
  assumes "list_all resolved os" and "Blocked \<notin> set os" and "Raised Rpc_error \<in> set os"
  shows "all_outcomes os = Raised Rpc_error"
proof -
  from assms(3) have "filter (\<lambda>out. out \<noteq> Done) os \<noteq> []"
    by (auto simp: filter_empty_conv)
  then obtain out rest where f: "filter (\<lambda>out. out \<noteq> Done) os = out # rest"
    by (cases "filter (\<lambda>out. out \<noteq> Done) os") auto
  then have "out \<in> set (filter (\<lambda>out. out \<noteq> Done) os)"
    by simp
  then have "out \<in> set os" and "out \<noteq> Done"
    by auto
  with assms(1,2) have "out = Raised Rpc_error"
    by (auto simp: list_all_iff resolved_def)
  with f assms(2) show ?thesis
    by (simp add: all_outcomes_def)
qed

lemma all_outcomes_resolved:
  assumes "list_all resolved os"
  shows "resolved (all_outcomes os)"
proof (cases "Blocked \<in> set os")
  case True
  then show ?thesis by (simp add: all_outcomes_def resolved_def)
next
  case False
  show ?thesis
  proof (cases "filter (\<lambda>out. out \<noteq> Done) os")
    case Nil
    with False show ?thesis by (simp add: all_outcomes_def resolved_def)
  next
    case (Cons out rest)
    then have "out \<in> set (filter (\<lambda>out. out \<noteq> Done) os)" by simp
    with assms have "resolved out" by (auto simp: list_all_iff)
    with False Cons show ?thesis by (simp add: all_outcomes_def)
  qed
qed

lemma context_run_resolved: "resolved (snd (context_run e c))"
proof -
  have "list_all resolved (map snd (map (\<lambda>(k, j). job_run (run_clock e) (schedules e k) j)
      (enumerate 0 (c_jobs c))))"
    by (auto simp: list_all_iff job_run_resolved)
  from all_outcomes_resolved [OF this] show ?thesis
    by (simp add: context_run_def Let_def resolved_def)
qed

lemma context_run_faulted:
  assumes cli: "c_client c \<noteq> None" and k: "k < length (c_jobs c)"
    and run: "exec (start_run (c_jobs c ! k) (run_clock e)) (schedules e k) = Some s"
    and "completed s" and "0 < faulted s"
  shows "snd (context_run e c) = Raised Rpc_error \<or> snd (context_run e c) = Blocked"
proof -
  let ?rs = "map (\<lambda>(k, j). job_run (run_clock e) (schedules e k) j) (enumerate 0 (c_jobs c))"
  have all: "list_all resolved (map snd ?rs)"
    by (auto simp: list_all_iff job_run_resolved)
  from k have "?rs ! k = job_run (run_clock e) (schedules e k) (c_jobs c ! k)"
    by (simp add: nth_enumerate_eq)
  with job_run_faulted [OF run assms(4,5)] have "snd (?rs ! k) = Raised Rpc_error"
    by simp
  moreover from k have "k < length (map snd ?rs)" by simp
  ultimately have "Raised Rpc_error \<in> set (map snd ?rs)"
    by (metis nth_map nth_mem length_map)
  from all_outcomes_Raised [OF all _ this] cli show ?thesis
    by (auto simp: context_run_def Let_def all_outcomes_def)
qed


lemma startup_not_teardown: "startup a \<Longrightarrow> \<not> teardown a \<and> \<not> prints a"
  by (cases a) auto

lemma endpoint_only_quiet: "endpoint_only a \<Longrightarrow> \<not> sends a \<and> \<not> prints a"
  by (cases a) auto

lemma endpoint_only_startup: "endpoint_only a \<Longrightarrow> startup a"
  by (cases a) auto

lemma context_start_actions: "list_all startup (fst (context_start i e c))"
  by (simp add: context_start_def)

lemma context_start_action: "a \<in> set (fst (context_start i e c)) \<Longrightarrow> startup a"
  using context_start_actions [of i e c] by (simp add: list_all_iff)

lemma boot_actions:
  assumes "boot env opts conf = (acts, r)"
  shows "list_all startup acts"
proof (cases "assign_groups (create_scheduling_group env) (durations opts conf)")
  case (Inl err)
  with assms show ?thesis
    by (simp add: boot_def durations_def)
next
  case (Inr gs)
  define laddr where
    "laddr = (if listen opts \<noteq> [] then Some (listen opts, of_int (port opts) :: 16 word) else None)"
  define caddr where
    "caddr = (if connect opts \<noteq> [] then Some (connect opts, of_int (port opts) :: 16 word) else None)"
  define ctors where
    "ctors = map (\<lambda>(i, e). context_ctor i (ctor_clock e) laddr caddr (of_int (port opts))
                     (conf\<lparr>jobs := gs\<rparr>))
               (enumerate 0 (shards env))"
  have a1: "list_all startup (concat (map fst ctors))"
    by (rule list_all_concat)
      (auto simp: ctors_def list_all_iff dest!: context_ctor_action endpoint_only_startup)
  show ?thesis
  proof (cases "all_constructed (map snd ctors)")
    case (Inl err)
    with assms Inr have "acts = concat (map fst ctors)"
      by (simp add: boot_def durations_def Let_def ctors_def laddr_def caddr_def)
    with a1 show ?thesis by simp
  next
    case cs: (Inr cs)
    define starts where
      "starts = map (\<lambda>((i, e), c). context_start i e c) (zip (enumerate 0 (shards env)) cs)"
    have a2: "list_all startup (concat (map fst starts))"
      by (rule list_all_concat) (auto simp: starts_def list_all_iff dest: context_start_action)
    from assms Inr cs have "acts = concat (map fst ctors) @ concat (map fst starts)"
      by (simp add: boot_def durations_def Let_def ctors_def laddr_def caddr_def starts_def
          split: if_splits)
    with a1 a2 show ?thesis by simp
  qed
qed

lemma boot_length:
  assumes "boot env opts conf = (acts, Inr cs)"
  shows "length cs = length (shards env)"
proof (cases "assign_groups (create_scheduling_group env) (durations opts conf)")
  case (Inl err)
  with assms show ?thesis
    by (simp add: boot_def durations_def)
next
  case (Inr gs)
  define laddr where
    "laddr = (if listen opts \<noteq> [] then Some (listen opts, of_int (port opts) :: 16 word) else None)"
  define caddr where
    "caddr = (if connect opts \<noteq> [] then Some (connect opts, of_int (port opts) :: 16 word) else None)"
  define ctors where
    "ctors = map (\<lambda>(i, e). context_ctor i (ctor_clock e) laddr caddr (of_int (port opts))
                     (conf\<lparr>jobs := gs\<rparr>))
               (enumerate 0 (shards env))"
  show ?thesis
  proof (cases "all_constructed (map snd ctors)")
    case (Inl err)
    with assms Inr show ?thesis
      by (simp add: boot_def durations_def Let_def ctors_def laddr_def caddr_def)
  next
    case cs': (Inr cs')
    with assms Inr have "cs' = cs"
      by (simp add: boot_def durations_def Let_def ctors_def laddr_def caddr_def
          split: if_splits)
    with all_constructed_Inr [OF cs'] have "map snd ctors = map Inr cs"
      by simp
    then have "length (map snd ctors) = length (map Inr cs :: (error + shard_context) list)"
      by simp
    then show ?thesis
      by (simp add: ctors_def)
  qed
qed

lemma run_all_nth:
  assumes "length cs = length (shards env)" and "i < length cs"
  shows "run_all env cs ! i = context_run (shards env ! i) (cs ! i)"
    and "length (run_all env cs) = length cs"
  using assms by (simp_all add: run_all_def)

lemma run_all_resolved: "list_all resolved (map snd (run_all env cs))"
  by (auto simp: run_all_def list_all_iff context_run_resolved)

lemma stop_all_nth:
  assumes "length cs = length (shards env)" and "i < length cs"
  shows "set (fst (context_stop i (shards env ! i) (cs ! i))) \<subseteq> set (fst (stop_all env cs))"
proof -
  let ?stops = "map (\<lambda>((i, e), c). context_stop i e c) (zip (enumerate 0 (shards env)) cs)"
  from assms have "?stops ! i = context_stop i (shards env ! i) (cs ! i)"
    by (simp add: nth_enumerate_eq)
  moreover from assms have "i < length ?stops"
    by simp
  ultimately have "context_stop i (shards env ! i) (cs ! i) \<in> set ?stops"
    by (metis nth_mem)
  then show ?thesis
    by (auto simp: stop_all_def Let_def)
qed

lemma exec_cfg: "exec s evs = Some s' \<Longrightarrow> cfg (job s') = cfg (job s)"
  using exec_issues by blast

lemma job_run_cfg: "cfg (fst (job_run t0 evs j)) = cfg j"
proof (cases "exec (start_run j t0) evs")
  case None
  then show ?thesis by (simp add: job_run_def)
next
  case (Some s)
  from exec_cfg [OF Some] Some show ?thesis
    by (simp add: job_run_def start_run_def)
qed

lemma context_run_names: "map job_name (c_jobs (fst (context_run e c))) = map job_name (c_jobs c)"
proof -
  let ?run = "\<lambda>(k, j). job_run (run_clock e) (schedules e k) j"
  have "map job_name (map fst (map ?run (enumerate 0 (c_jobs c))))
      = map (\<lambda>p. job_name (snd p)) (enumerate 0 (c_jobs c))"
    by (simp add: job_name_def job_run_cfg split_def)
  also have "\<dots> = map job_name (map snd (enumerate 0 (c_jobs c)))"
    by (simp only: map_map comp_def)
  also have "\<dots> = map job_name (c_jobs c)"
    by (simp only: map_snd_enumerate)
  finally show ?thesis
    by (simp add: context_run_def Let_def)
qed

lemma truncated_bounds:
  assumes "0 \<le> x"
  shows "of_int (truncated x) \<le> x \<and> x < of_int (truncated x) + 1"
proof -
  have "of_int \<lfloor>x\<rfloor> \<le> x \<and> x < of_int (\<lfloor>x\<rfloor> + 1)"
    by (rule floor_correct)
  with assms show ?thesis
    by (simp add: truncated_def)
qed

lemma to_uint64_Number:
  assumes "to_uint64 (Finite x) = Number w"
  shows "uint w = truncated x"
proof -
  from assms have r: "0 \<le> truncated x" "truncated x < 2 ^ 64" and w: "w = of_int (truncated x)"
    by (auto simp: to_uint64_def split: if_splits)
  from r have "take_bit 64 (truncated x) = truncated x"
    by (simp add: take_bit_int_eq_self)
  with w show ?thesis
    by (simp add: uint_word_of_int take_bit_eq_mod)
qed

lemma enumerate_nths: "enumerate 0 cs = map (\<lambda>i. (i, cs ! i)) [0..<length cs]"
  by (rule nth_equalityI) (simp_all add: nth_enumerate_eq)

lemma report_sections:
  "report est cs
   = YSeq (map (\<lambda>i. YMap ((''shard'', Number (of_nat i)) # context_emit_result est (cs ! i)))
        [0..<length cs])"
  by (simp add: report_def enumerate_nths comp_def)


lemma step_issued_before_now:
  assumes "step s (i, w) = Some s'" and "issued_before_now s"
  shows "issued_before_now s'"
proof -
  from step_Some [OF assms(1)] obtain c j l where
    i: "i < length (loops s)" and
    it: "iteration (clock s) (job s) (loops s ! i) w = Some (c, j, l)" and
    s': "s' = \<lparr>job = j, loops = (loops s)[i := l], clock = c\<rparr>"
    by blast
  have sub: "set ((loops s)[i := l]) \<subseteq> insert l (set (loops s))"
    by (rule set_update_subset_insert)
  have mono: "clock s \<le> c"
    using it by (cases rule: iteration_cases) simp_all
  have new: "issued_by c l"
    using it by (cases rule: iteration_cases) simp_all
  have old: "issued_by c l'" if "l' \<in> set (loops s)" for l'
  proof -
    from that assms(2) have "issued_by (clock s) l'"
      by (simp add: issued_before_now_def list_all_iff)
    with mono show ?thesis by (cases l') simp_all
  qed
  have "issued_by c x" if "x \<in> set ((loops s)[i := l])" for x
    using that sub new old by blast
  then show ?thesis
    by (simp add: issued_before_now_def list_all_iff s')
qed

lemma exec_issued_before_now:
  assumes "exec s evs = Some s'" and "issued_before_now s"
  shows "issued_before_now s'"
  using assms
proof (induction evs arbitrary: s)
  case Nil
  then show ?case by simp
next
  case (Cons ev evs)
  obtain i w where ev: "ev = (i, w)" by (cases ev)
  from Cons.prems(1) obtain s1 where s1: "step s (i, w) = Some s1" and rest: "exec s1 evs = Some s'"
    by (auto simp: ev split: option.splits)
  from Cons.IH [OF rest step_issued_before_now [OF s1 Cons.prems(2)]] show ?case .
qed

lemma start_run_issued_before_now: "issued_before_now (start_run j t0)"
  by (simp add: issued_before_now_def start_run_def list_all_iff)

lemma reply_sample:
  assumes run: "exec (start_run j t0) evs = Some s" and reply: "step s (k, Reply t) = Some s'"
  shows "\<exists>start. loops s ! k = In_flight start \<and> start \<le> t
           \<and> latencies (job s') = latencies (job s) @ [(t - start) div 1000]"
proof -
  from step_Some [OF reply] obtain c j' l where
    k: "k < length (loops s)" and
    it: "iteration (clock s) (job s) (loops s ! k) (Reply t) = Some (c, j', l)" and
    s': "s' = \<lparr>job = j', loops = (loops s)[k := l], clock = c\<rparr>"
    by blast
  from it obtain start where st: "loops s ! k = In_flight start" and t: "clock s \<le> t"
    and j': "j' = (job s)\<lparr>latencies := latencies (job s) @ [duration_cast_microseconds (t - start)]\<rparr>"
    by (cases rule: iteration_cases) simp_all
  from exec_issued_before_now [OF run start_run_issued_before_now] st
  have "start \<le> clock s"
    using nth_mem [OF k] by (auto simp: issued_before_now_def list_all_iff)
  with t have le: "start \<le> t" by simp
  then have "duration_cast_microseconds (t - start) = (t - start) div 1000"
    by (cases "t - start = 0") (simp_all add: duration_cast_microseconds_def)
  with st le j' show ?thesis
    by (simp add: s')
qed

lemma to_uint64_in_range:
  assumes "0 \<le> x" and "x < 2 ^ 64"
  shows "to_uint64 (Finite x) = Number (of_int \<lfloor>x\<rfloor>)"
proof -
  from assms(2) have "\<lfloor>x\<rfloor> < 2 ^ 64"
    by (simp add: floor_less_iff)
  with assms(1) show ?thesis
    by (simp add: to_uint64_def truncated_def)
qed

text \<open>
  Claim C7. For every unsigned 64-bit payload, the handler of \<^verbatim>\<open>ECHO\<close> returns
  that value unchanged: the reply is the payload, the context is as it was, nothing
  is printed; and the payload survives the serializer on its way.
\<close>

theorem echo_handler_returns_payload:
  "verb_of (Echo val) = ECHO
   \<and> handle c (Echo val) = (c, [], Some val)
   \<and> serializer_read e (serializer_write e [] (UInt64 val) @ rest) T_uint64 = Inr (UInt64 val, rest)"
  by (simp add: read_write_arithmetic_type)

text \<open>
  Claim C9. A context constructed with a listen address and a connect address has a
  server and a client. Its \<^verbatim>\<open>stop\<close>, before or after the run, sends \<^verbatim>\<open>BYE\<close> and,
  once the call has resolved, stops the client; it does not stop the server. The
  server is stopped only by a context that has no client.
\<close>

theorem stop_with_client_keeps_server:
  assumes "snd (context_ctor i now (Some la) (Some ca) p conf) = Inr c"
    and "c' = c \<or> c' = fst (context_run env c)"
  shows "c_server c' \<noteq> None \<and> c_client c' \<noteq> None
       \<and> fst (context_stop i env c')
           = (if bye_reply env = Blocked then [Send i BYE] else [Send i BYE, Client_stop i])
       \<and> Server_stop i \<notin> set (fst (context_stop i env c'))
       \<and> (\<forall>d. Server_stop i \<in> set (fst (context_stop i env d)) \<longrightarrow> c_client d = None)"
proof -
  from context_ctor_Inr(1,2) [OF assms(1)] have "c_server c \<noteq> None" "c_client c \<noteq> None"
    by simp_all
  with assms(2) context_run_endpoints [of env c]
  have srv: "c_server c' \<noteq> None" and cli: "c_client c' \<noteq> None"
    by auto
  note stop = context_stop_client [OF cli, of i env]
  have "Server_stop i \<notin> set (fst (context_stop i env c'))"
    using context_stop_server [of i env c'] cli by blast
  with srv cli stop context_stop_server [of i env] show ?thesis
    by blast
qed

theorem stop_with_client_keeps_server_witness:
  "snd (context_ctor 0 (\<lambda>k. 0) (Some (''0.0.0.0'', 9123)) (Some (''10.0.0.1'', 9123)) 9123
         echo_conf) = Inr both_context
   \<and> c_server (fst (context_run calm_shard both_context)) \<noteq> None
   \<and> c_client (fst (context_run calm_shard both_context)) \<noteq> None
   \<and> fst (context_stop 0 calm_shard (fst (context_run calm_shard both_context)))
       = [Send 0 BYE, Client_stop 0]
   \<and> Server_stop 0
       \<notin> set (fst (context_stop 0 calm_shard (fst (context_run calm_shard both_context))))
   \<and> Server_stop 0 \<in> set (fst (context_stop 0 calm_shard server_context))
   \<and> c_client server_context = None
   \<and> fst (main (one_shard calm_shard) plain_estimator both_opts echo_conf)
       = [Listen 0 \<lparr>addr = (''0.0.0.0'', 9123), tcp_nodelay = True\<rparr>,
          Connect 0 \<lparr>addr = (''10.0.0.1'', 9123), tcp_nodelay = True\<rparr>,
          Send 0 HELLO, Print echo1_report, Send 0 BYE, Client_stop 0]"
proof -
  have whole: "fst (main (one_shard calm_shard) plain_estimator both_opts echo_conf)
       = [Listen 0 \<lparr>addr = (''0.0.0.0'', 9123), tcp_nodelay = True\<rparr>,
          Connect 0 \<lparr>addr = (''10.0.0.1'', 9123), tcp_nodelay = True\<rparr>,
          Send 0 HELLO, Print echo1_report, Send 0 BYE, Client_stop 0]"
    by code_simp
  have ctor: "snd (context_ctor 0 (\<lambda>k. 0) (Some (''0.0.0.0'', 9123))
      (Some (''10.0.0.1'', 9123)) 9123 echo_conf) = Inr both_context"
    by code_simp
  have after: "fst (context_run calm_shard both_context) = both_context
      \<or> fst (context_run calm_shard both_context) = fst (context_run calm_shard both_context)"
    by simp
  have bye: "bye_reply calm_shard \<noteq> Blocked" by code_simp
  have srv: "Server_stop 0 \<in> set (fst (context_stop 0 calm_shard server_context))"
    by code_simp
  note inst = stop_with_client_keeps_server [OF ctor after]
  from inst bye
  have "c_server (fst (context_run calm_shard both_context)) \<noteq> None
   \<and> c_client (fst (context_run calm_shard both_context)) \<noteq> None
   \<and> fst (context_stop 0 calm_shard (fst (context_run calm_shard both_context)))
       = [Send 0 BYE, Client_stop 0]
   \<and> Server_stop 0
       \<notin> set (fst (context_stop 0 calm_shard (fst (context_run calm_shard both_context))))"
    by simp
  moreover from inst srv have "c_client server_context = None"
    by blast
  ultimately show ?thesis
    using ctor srv whole by blast
qed

text \<open>
  Claim C6. A job whose type is not \<^verbatim>\<open>rpc\<close>, or whose verb is not \<^verbatim>\<open>echo\<close>, is not
  constructed: \<^verbatim>\<open>make_job\<close> throws \<^verbatim>\<open>std::runtime_error\<close>. When such a job is in
  the configuration of a process that connects to a peer, \<^verbatim>\<open>main\<close> ends with that
  exception, and all it has done by then is to create the endpoints in the
  constructors of the contexts: no verb was sent, no job ran, no report was printed.
\<close>

theorem unrecognised_job_is_fatal:
  assumes "type jc \<noteq> ''rpc'' \<or> verb jc \<noteq> ''echo''"
  shows "make_job now jc
         = Inl (Runtime_error (if type jc = ''rpc'' then ''unknown verb'' else ''unknown job type''))
       \<and> (jc \<in> set (jobs conf) \<and> connect opts \<noteq> [] \<and> shards env \<noteq> []
            \<and> assign_groups (create_scheduling_group env) (durations opts conf) = Inr gs
          \<longrightarrow> (\<exists>acts. \<exists>msg \<in> {''unknown verb'', ''unknown job type''}.
                 main env est opts conf = (acts, Raised (Runtime_error msg))
                 \<and> list_all (\<lambda>a. endpoint_only a \<and> \<not> sends a \<and> \<not> prints a) acts))"
proof -
  from assms have bad: "\<not> recognised jc"
    by (auto simp: recognised_def)
  have "\<exists>acts. \<exists>msg \<in> {''unknown verb'', ''unknown job type''}.
                 main env est opts conf = (acts, Raised (Runtime_error msg))
                 \<and> list_all (\<lambda>a. endpoint_only a \<and> \<not> sends a \<and> \<not> prints a) acts"
    if "jc \<in> set (jobs conf)" and "connect opts \<noteq> []" and "shards env \<noteq> []"
      and "assign_groups (create_scheduling_group env) (durations opts conf) = Inr gs"
  proof -
    from bad that(1) have "\<not> list_all recognised (jobs conf)"
      by (auto simp: list_all_iff)
    from boot_unrecognised [OF this that(2,3,4)] obtain acts msg where
      "msg \<in> {''unknown verb'', ''unknown job type''}"
      "boot env opts conf = (acts, Inl (Raised (Runtime_error msg)))"
      "list_all endpoint_only acts"
      by blast
    moreover from this(3)
    have "list_all (\<lambda>a. endpoint_only a \<and> \<not> sends a \<and> \<not> prints a) acts"
      by (auto simp: list_all_iff dest: endpoint_only_quiet)
    ultimately show ?thesis
      by (auto simp: main_def)
  qed
  with make_job_Inl [OF bad, of now] show ?thesis
    by blast
qed

theorem unrecognised_job_is_fatal_witness:
  "verb ping1 \<noteq> ''echo''
   \<and> ping1 \<in> set (jobs ping_conf) \<and> connect client_opts \<noteq> []
   \<and> shards (one_shard calm_shard) \<noteq> []
   \<and> assign_groups (create_scheduling_group (one_shard calm_shard))
         (durations client_opts ping_conf) = Inr [echo1, ping1]
   \<and> make_job 0 ping1 = Inl (Runtime_error ''unknown verb'')
   \<and> (\<exists>acts. \<exists>msg \<in> {''unknown verb'', ''unknown job type''}.
         main (one_shard calm_shard) plain_estimator client_opts ping_conf
         = (acts, Raised (Runtime_error msg)) \<and> list_all (\<lambda>a. endpoint_only a \<and> \<not> sends a \<and> \<not> prints a) acts)
   \<and> main (one_shard calm_shard) plain_estimator client_opts ping_conf
       = ([Connect 0 \<lparr>addr = (''10.0.0.1'', 9123), tcp_nodelay = True\<rparr>],
          Raised (Runtime_error ''unknown verb''))"
proof -
  have verb: "verb ping1 \<noteq> ''echo''" by code_simp
  then have bad: "type ping1 \<noteq> ''rpc'' \<or> verb ping1 \<noteq> ''echo''" by simp
  have mem: "ping1 \<in> set (jobs ping_conf)" by code_simp
  have cli: "connect client_opts \<noteq> []" by code_simp
  have smp: "shards (one_shard calm_shard) \<noteq> []" by code_simp
  have groups: "assign_groups (create_scheduling_group (one_shard calm_shard))
         (durations client_opts ping_conf) = Inr [echo1, ping1]"
    by code_simp
  have rpc: "type ping1 = ''rpc''" by code_simp
  note inst = unrecognised_job_is_fatal [OF bad, where now = 0 and conf = ping_conf
      and opts = client_opts and env = "one_shard calm_shard" and gs = "[echo1, ping1]"
      and est = plain_estimator]
  from inst rpc have one: "make_job 0 ping1 = Inl (Runtime_error ''unknown verb'')"
    by simp
  from inst mem cli smp groups
  have all: "\<exists>acts. \<exists>msg \<in> {''unknown verb'', ''unknown job type''}.
         main (one_shard calm_shard) plain_estimator client_opts ping_conf
         = (acts, Raised (Runtime_error msg)) \<and> list_all (\<lambda>a. endpoint_only a \<and> \<not> sends a \<and> \<not> prints a) acts"
    by blast
  have run: "main (one_shard calm_shard) plain_estimator client_opts ping_conf
       = ([Connect 0 \<lparr>addr = (''10.0.0.1'', 9123), tcp_nodelay = True\<rparr>],
          Raised (Runtime_error ''unknown verb''))"
    by code_simp
  from verb mem cli smp groups one all run show ?thesis
    by blast
qed

text \<open>
  Claim C2, as the code has it. The claim reads: whenever a call inside the call loop
  fails, the error propagates up through \<^verbatim>\<open>run\<close>, and the teardown of \<^verbatim>\<open>stop\<close>
  (the farewell, the close of the client connection, the stop of the listener) still
  executes afterwards, on the failure path as on the success path.

  The error does propagate: through \<^verbatim>\<open>job_rpc::run\<close> and \<^verbatim>\<open>context::run\<close> into
  \<^verbatim>\<open>main\<close>, where \<^verbatim>\<open>get()\<close> throws it and nothing catches it. \<^verbatim>\<open>main\<close> ends
  there: its actions are those of the start, without report and without any action
  of \<^verbatim>\<open>stop\<close>. When every run resolves without an exception, the actions of
  \<^verbatim>\<open>stop\<close> of every shard are among those of \<^verbatim>\<open>main\<close>. Inside \<^verbatim>\<open>stop\<close>, the
  client is stopped whenever the farewell has resolved, with or without an exception.
\<close>

theorem call_failure_skips_stop:
  assumes boot: "boot env opts conf = (acts, Inr cs)"
  shows "(i < length cs \<and> c_client (cs ! i) \<noteq> None \<and> k < length (c_jobs (cs ! i))
          \<and> exec (start_run (c_jobs (cs ! i) ! k) (run_clock (shards env ! i)))
               (schedules (shards env ! i) k) = Some s
          \<and> completed s \<and> 0 < faulted s
          \<and> Blocked \<notin> set (map snd (run_all env cs))
          \<longrightarrow> snd (context_run (shards env ! i) (cs ! i)) = Raised Rpc_error
              \<and> main env est opts conf = (acts, Raised Rpc_error)
              \<and> list_all (\<lambda>a. \<not> teardown a \<and> \<not> prints a) acts)
       \<and> (all_outcomes (map snd (run_all env cs)) = Done \<and> i < length cs
          \<longrightarrow> set (fst (context_stop i (shards env ! i) (fst (run_all env cs ! i))))
              \<subseteq> set (fst (main env est opts conf)))
       \<and> (c_client c \<noteq> None \<and> bye_reply e \<noteq> Blocked
          \<longrightarrow> fst (context_stop i e c) = [Send i BYE, Client_stop i])"
proof -
  note len = boot_length [OF boot]
  have quiet: "list_all (\<lambda>a. \<not> teardown a \<and> \<not> prints a) acts"
    using boot_actions [OF boot] by (auto simp: list_all_iff dest: startup_not_teardown)
  have failure: "snd (context_run (shards env ! i) (cs ! i)) = Raised Rpc_error
      \<and> main env est opts conf = (acts, Raised Rpc_error)"
    if i: "i < length cs" and cli: "c_client (cs ! i) \<noteq> None"
      and k: "k < length (c_jobs (cs ! i))"
      and run: "exec (start_run (c_jobs (cs ! i) ! k) (run_clock (shards env ! i)))
               (schedules (shards env ! i) k) = Some s"
      and s: "completed s" "0 < faulted s"
      and nb: "Blocked \<notin> set (map snd (run_all env cs))"
  proof -
    from i have "snd (run_all env cs ! i) \<in> set (map snd (run_all env cs))"
      using run_all_nth(2) [OF len i] by (metis length_map nth_map nth_mem)
    with run_all_nth(1) [OF len i]
    have mem: "snd (context_run (shards env ! i) (cs ! i)) \<in> set (map snd (run_all env cs))"
      by simp
    with nb context_run_faulted [OF cli k run s]
    have one: "snd (context_run (shards env ! i) (cs ! i)) = Raised Rpc_error"
      by metis
    with mem have "Raised Rpc_error \<in> set (map snd (run_all env cs))"
      by simp
    from all_outcomes_Raised [OF run_all_resolved nb this] boot
    have "main env est opts conf = (acts, Raised Rpc_error)"
      by (simp add: main_def Let_def)
    with one show ?thesis by simp
  qed
  have success: "set (fst (context_stop i (shards env ! i) (fst (run_all env cs ! i))))
              \<subseteq> set (fst (main env est opts conf))"
    if ok: "all_outcomes (map snd (run_all env cs)) = Done" and i: "i < length cs"
  proof -
    have len': "length (map fst (run_all env cs)) = length (shards env)"
      using run_all_nth(2) [OF len i] len by simp
    from i have i': "i < length (map fst (run_all env cs))"
      using len len' by simp
    from stop_all_nth [OF len' i'] i run_all_nth(2) [OF len i]
    have "set (fst (context_stop i (shards env ! i) (fst (run_all env cs ! i))))
        \<subseteq> set (fst (stop_all env (map fst (run_all env cs))))"
      by simp
    with boot ok show ?thesis
      by (auto simp: main_def Let_def)
  qed
  have bye: "fst (context_stop i e c) = [Send i BYE, Client_stop i]"
    if "c_client c \<noteq> None" and "bye_reply e \<noteq> Blocked"
    using that by (simp add: context_stop_def)
  from quiet failure success bye show ?thesis
    by blast
qed

theorem call_failure_skips_stop_witness:
  "boot (one_shard faulty_shard) client_opts echo_conf
   = ([Connect 0 \<lparr>addr = (''10.0.0.1'', 9123), tcp_nodelay = True\<rparr>, Send 0 HELLO],
      Inr [echo1_context])
   \<and> 0 < length [echo1_context] \<and> c_client ([echo1_context] ! 0) \<noteq> None
   \<and> 0 < length (c_jobs ([echo1_context] ! 0))
   \<and> exec (start_run (c_jobs ([echo1_context] ! 0) ! 0)
         (run_clock (shards (one_shard faulty_shard) ! 0)))
         (schedules (shards (one_shard faulty_shard) ! 0) 0) = Some faulty_final
   \<and> completed faulty_final \<and> 0 < faulted faulty_final
   \<and> Blocked \<notin> set (map snd (run_all (one_shard faulty_shard) [echo1_context]))
   \<and> main (one_shard faulty_shard) plain_estimator client_opts echo_conf
       = ([Connect 0 \<lparr>addr = (''10.0.0.1'', 9123), tcp_nodelay = True\<rparr>, Send 0 HELLO],
          Raised Rpc_error)
   \<and> boot (one_shard calm_shard) client_opts echo_conf
       = ([Connect 0 \<lparr>addr = (''10.0.0.1'', 9123), tcp_nodelay = True\<rparr>, Send 0 HELLO],
          Inr [echo1_context])
   \<and> all_outcomes (map snd (run_all (one_shard calm_shard) [echo1_context])) = Done
   \<and> bye_reply calm_shard \<noteq> Blocked
   \<and> set [Send 0 BYE, Client_stop 0]
       \<subseteq> set (fst (main (one_shard calm_shard) plain_estimator client_opts echo_conf))"
proof -
  let ?acts = "[Connect 0 \<lparr>addr = (''10.0.0.1'', 9123), tcp_nodelay = True\<rparr>, Send 0 HELLO]"
  have boot: "boot (one_shard faulty_shard) client_opts echo_conf = (?acts, Inr [echo1_context])"
    by code_simp
  have i: "0 < length [echo1_context]" by simp
  have cli: "c_client ([echo1_context] ! 0) \<noteq> None" by code_simp
  have k: "0 < length (c_jobs ([echo1_context] ! 0))" by code_simp
  have run: "exec (start_run (c_jobs ([echo1_context] ! 0) ! 0)
         (run_clock (shards (one_shard faulty_shard) ! 0)))
         (schedules (shards (one_shard faulty_shard) ! 0) 0) = Some faulty_final"
    by code_simp
  have s: "completed faulty_final" "0 < faulted faulty_final" by code_simp+
  have nb: "Blocked \<notin> set (map snd (run_all (one_shard faulty_shard) [echo1_context]))"
    by code_simp
  from call_failure_skips_stop [OF boot, where i = 0 and k = 0 and s = faulty_final
      and est = plain_estimator] i cli k run s nb
  have fail: "main (one_shard faulty_shard) plain_estimator client_opts echo_conf
       = (?acts, Raised Rpc_error)"
    by blast
  have boot': "boot (one_shard calm_shard) client_opts echo_conf = (?acts, Inr [echo1_context])"
    by code_simp
  have ok: "all_outcomes (map snd (run_all (one_shard calm_shard) [echo1_context])) = Done"
    by code_simp
  have bye: "bye_reply calm_shard \<noteq> Blocked" by code_simp
  have sh: "shards (one_shard calm_shard) ! 0 = calm_shard"
    by (simp add: one_shard_def)
  have run': "run_all (one_shard calm_shard) [echo1_context] ! 0
      = context_run calm_shard echo1_context"
    by (simp add: run_all_def one_shard_def)
  have cli': "c_client (fst (context_run calm_shard echo1_context)) \<noteq> None"
    using cli by (simp add: context_run_endpoints)
  note inst = call_failure_skips_stop [OF boot', where i = 0 and est = plain_estimator
      and c = "fst (context_run calm_shard echo1_context)" and e = calm_shard]
  from inst ok i
  have "set (fst (context_stop 0 (shards (one_shard calm_shard) ! 0)
          (fst (run_all (one_shard calm_shard) [echo1_context] ! 0))))
       \<subseteq> set (fst (main (one_shard calm_shard) plain_estimator client_opts echo_conf))"
    by blast
  moreover from inst cli' bye
  have "fst (context_stop 0 calm_shard (fst (context_run calm_shard echo1_context)))
      = [Send 0 BYE, Client_stop 0]"
    by blast
  ultimately have "set [Send 0 BYE, Client_stop 0]
       \<subseteq> set (fst (main (one_shard calm_shard) plain_estimator client_opts echo_conf))"
    by (simp only: sh run')
  with boot i cli k run s nb fail boot' ok bye show ?thesis
    by blast
qed

text \<open>
  The claim itself fails on the process of one shard whose job \<open>echo1\<close> sees the
  call of its second loop fail: \<^verbatim>\<open>main\<close> ends with the exception of the call after
  the client connection and the greeting, and neither sends \<^verbatim>\<open>BYE\<close> nor stops the
  client.
\<close>

theorem call_failure_counterexample:
  "exec (start_run echo1_job 1000) faulty_schedule = Some faulty_final
   \<and> completed faulty_final \<and> 0 < faulted faulty_final
   \<and> main (one_shard faulty_shard) plain_estimator client_opts echo_conf
       = ([Connect 0 \<lparr>addr = (''10.0.0.1'', 9123), tcp_nodelay = True\<rparr>, Send 0 HELLO],
          Raised Rpc_error)
   \<and> Send 0 BYE \<notin> set (fst (main (one_shard faulty_shard) plain_estimator client_opts echo_conf))
   \<and> Client_stop 0
       \<notin> set (fst (main (one_shard faulty_shard) plain_estimator client_opts echo_conf))"
  by code_simp

text \<open>
  Claim C8, as the code has it. The claim reads: the report contains, for each
  execution unit, one entry for each job it owns, in the order of the declaration of
  the jobs, each with the call count and a block of latencies (the average, one
  field for each target quantile, labelled by its probability, and the maximum), and
  all latencies are in microseconds, unsigned integers obtained by truncation, not
  by rounding.

  The structure is as claimed: one section for each shard, with the index of the
  shard first; in it one entry for each job, under its name, in the order of the
  configuration; in the entry the call count and, under \<^verbatim>\<open>latencies\<close> (commented
  \<^verbatim>\<open>usec\<close>), the average, one field \<^verbatim>\<open>p<probability>\<close> for each target quantile,
  and the maximum, each the cast of a statistic of the samples. Every sample given to
  the accumulator is the time from the issue of a call to its reply in whole
  microseconds, the clock ticks divided by 1000 and cut down. A statistic \<open>x\<close> with
  \<open>0 \<le> x < 2 ^ 64\<close> is emitted as the unsigned integer \<open>\<lfloor>x\<rfloor>\<close>, and every number
  \<open>n\<close> emitted for a statistic \<open>x \<ge> 0\<close> satisfies \<open>n \<le> x < n + 1\<close>, so \<open>1.9\<close> is
  reported as \<open>1\<close>. Of the other statistics the theorem says nothing.
\<close>

theorem report_structure_and_truncation:
  "context_emit_result est c
   = map (\<lambda>j. (name (cfg j),
              YMap [(''messages'', Number (total_messages j)),
                    (''latencies'', Comment ''usec'' (YMap
                       ([(''average'', to_uint64 (est_mean est (latencies j)))]
                        @ map (\<lambda>q. (''p'' @ format est q,
                                     to_uint64 (est_quantile est (latencies j) q)))
                            quantiles
                        @ [(''max'', to_uint64 (est_max est (latencies j)))])))]))
       (c_jobs c)
   \<and> (snd (context_ctor i now laddr (Some ca) p conf) = Inr c0
        \<longrightarrow> map fst (context_emit_result est (fst (context_run e c0))) = map name (jobs conf))
   \<and> report est cs
       = YSeq (map (\<lambda>k. YMap ((''shard'', Number (of_nat k)) # context_emit_result est (cs ! k)))
            [0..<length cs])
   \<and> (exec (start_run j0 t0) evs = Some s \<and> step s (k, Reply t) = Some s'
        \<longrightarrow> (\<exists>start. loops s ! k = In_flight start \<and> start \<le> t
               \<and> latencies (job s') = latencies (job s) @ [(t - start) div 1000]))
   \<and> (0 \<le> x \<and> x < 2 ^ 64 \<longrightarrow> to_uint64 (Finite x) = Number (of_int \<lfloor>x\<rfloor>))
   \<and> (to_uint64 (Finite x) = Number w
        \<longrightarrow> uint w = truncated x
            \<and> (0 \<le> x \<longrightarrow> of_int (uint w) \<le> x \<and> x < of_int (uint w) + 1))
   \<and> to_uint64 (Finite (19 / 10)) = Number 1"
proof -
  have entries: "context_emit_result est c
   = map (\<lambda>j. (name (cfg j),
              YMap [(''messages'', Number (total_messages j)),
                    (''latencies'', Comment ''usec'' (YMap
                       ([(''average'', to_uint64 (est_mean est (latencies j)))]
                        @ map (\<lambda>q. (''p'' @ format est q,
                                     to_uint64 (est_quantile est (latencies j) q)))
                            quantiles
                        @ [(''max'', to_uint64 (est_max est (latencies j)))])))]))
       (c_jobs c)"
    by (simp add: context_emit_result_def job_emit_result_def job_name_def)
  have names: "map fst (context_emit_result est (fst (context_run e c0))) = map name (jobs conf)"
    if "snd (context_ctor i now laddr (Some ca) p conf) = Inr c0"
  proof -
    have "map fst (context_emit_result est (fst (context_run e c0)))
        = map job_name (c_jobs (fst (context_run e c0)))"
      by (simp add: context_emit_result_def comp_def)
    also have "\<dots> = map job_name (c_jobs c0)"
      by (rule context_run_names)
    also have "\<dots> = map name (map cfg (c_jobs c0))"
      by (simp add: job_name_def comp_def)
    also from context_ctor_Inr(3) [OF that] have "\<dots> = map name (jobs conf)"
      by simp
    finally show ?thesis .
  qed
  have sample: "\<exists>start. loops s ! k = In_flight start \<and> start \<le> t
               \<and> latencies (job s') = latencies (job s) @ [(t - start) div 1000]"
    if "exec (start_run j0 t0) evs = Some s" and "step s (k, Reply t) = Some s'"
    using that by (rule reply_sample)
  have range: "to_uint64 (Finite x) = Number (of_int \<lfloor>x\<rfloor>)" if "0 \<le> x" and "x < 2 ^ 64"
    using that by (rule to_uint64_in_range)
  have trunc: "uint w = truncated x
            \<and> (0 \<le> x \<longrightarrow> of_int (uint w) \<le> x \<and> x < of_int (uint w) + 1)"
    if "to_uint64 (Finite x) = Number w"
    using to_uint64_Number [OF that] truncated_bounds [of x] by simp
  have ex: "to_uint64 (Finite (19 / 10)) = Number 1"
    by code_simp
  from entries names report_sections [of est cs] sample range trunc ex show ?thesis
    by blast
qed

theorem report_structure_and_truncation_witness:
  "snd (context_ctor 0 (\<lambda>k. 0) None (Some (''10.0.0.1'', 9123)) 9123 echo_conf)
   = Inr echo1_context
   \<and> map fst (context_emit_result plain_estimator (fst (context_run calm_shard echo1_context)))
       = map name (jobs echo_conf)
   \<and> exec (start_run echo1_job 1000) [(0, Resume 1000 1001), (1, Resume 1002 1003)]
       = Some echo1_started
   \<and> step echo1_started (0, Reply 501001)
       = Some (echo1_started\<lparr>job := (job echo1_started)\<lparr>latencies := [500]\<rparr>,
                               loops := [Ready, In_flight 1003], clock := 501001\<rparr>)
   \<and> loops echo1_started ! 0 = In_flight 1001 \<and> (1001::int) \<le> 501001
   \<and> latencies (job (echo1_started\<lparr>job := (job echo1_started)\<lparr>latencies := [500]\<rparr>,
                               loops := [Ready, In_flight 1003], clock := 501001\<rparr>))
       = latencies (job echo1_started) @ [(501001 - 1001) div 1000]
   \<and> (0::rat) \<le> 1999999 / 3 \<and> (1999999 / 3 :: rat) < 2 ^ 64
   \<and> to_uint64 (Finite (1999999 / 3)) = Number 666666
   \<and> uint (666666 :: 64 word) = truncated (1999999 / 3)
   \<and> (of_int (uint (666666 :: 64 word)) :: rat) \<le> 1999999 / 3
   \<and> (1999999 / 3 :: rat) < of_int (uint (666666 :: 64 word)) + 1
   \<and> report plain_estimator [fst (context_run calm_shard echo1_context)] = echo1_report"
proof -
  let ?s' = "echo1_started\<lparr>job := (job echo1_started)\<lparr>latencies := [500]\<rparr>,
                               loops := [Ready, In_flight 1003], clock := 501001\<rparr>"
  have ctor: "snd (context_ctor 0 (\<lambda>k. 0) None (Some (''10.0.0.1'', 9123)) 9123 echo_conf)
   = Inr echo1_context"
    by code_simp
  have run: "exec (start_run echo1_job 1000) [(0, Resume 1000 1001), (1, Resume 1002 1003)]
       = Some echo1_started"
    by code_simp
  have reply: "step echo1_started (0, Reply 501001) = Some ?s'"
    by code_simp
  have x: "(0::rat) \<le> 1999999 / 3" "(1999999 / 3 :: rat) < 2 ^ 64" by simp_all
  have cast: "to_uint64 (Finite (1999999 / 3)) = Number 666666"
    by code_simp
  have doc: "report plain_estimator [fst (context_run calm_shard echo1_context)] = echo1_report"
    by code_simp
  note inst = report_structure_and_truncation [where est = plain_estimator and i = 0
      and now = "\<lambda>k. 0" and laddr = None and ca = "(''10.0.0.1'', 9123)" and p = 9123
      and conf = echo_conf and ?c0.0 = echo1_context and e = calm_shard
      and ?j0.0 = echo1_job and ?t0.0 = 1000
      and evs = "[(0, Resume 1000 1001), (1, Resume 1002 1003)]" and s = echo1_started
      and k = 0 and t = 501001 and s' = ?s'
      and x = "1999999 / 3" and w = 666666]
  from inst ctor
  have names: "map fst (context_emit_result plain_estimator
      (fst (context_run calm_shard echo1_context))) = map name (jobs echo_conf)"
    by blast
  from inst run reply
  obtain start where st: "loops echo1_started ! 0 = In_flight start" "start \<le> 501001"
    "latencies (job ?s') = latencies (job echo1_started) @ [(501001 - start) div 1000]"
    by blast
  have "loops echo1_started ! 0 = In_flight 1001" by code_simp
  with st have sample: "loops echo1_started ! 0 = In_flight 1001 \<and> (1001::int) \<le> 501001
      \<and> latencies (job ?s') = latencies (job echo1_started) @ [(501001 - 1001) div 1000]"
    by simp
  from inst cast
  have trunc: "uint (666666 :: 64 word) = truncated (1999999 / 3)
     \<and> (of_int (uint (666666 :: 64 word)) :: rat) \<le> 1999999 / 3
     \<and> (1999999 / 3 :: rat) < of_int (uint (666666 :: 64 word)) + 1"
    using x by blast
  from ctor names run reply sample x cast trunc doc show ?thesis
    by blast
qed

text \<open>
  The claim itself fails for a job that made no call: the process of one shard whose
  run starts after the deadline of \<open>echo1\<close> prints a report with the call count 0,
  and the cast of its statistics is not defined (the average of no samples is no
  number), so the latency fields hold no unsigned integer.
\<close>

theorem report_without_samples_counterexample:
  "exec (start_run echo1_job 1500000000) late_schedule = Some late_final
   \<and> completed late_final \<and> faulted late_final = 0
   \<and> latencies (job late_final) = []
   \<and> main (one_shard late_shard) plain_estimator client_opts echo_conf
       = ([Connect 0 \<lparr>addr = (''10.0.0.1'', 9123), tcp_nodelay = True\<rparr>, Send 0 HELLO,
           Print late_report, Send 0 BYE, Client_stop 0], Done)
   \<and> to_uint64 (est_mean plain_estimator (latencies (job late_final))) = Unspecified"
  by code_simp

end
